theory Spec2Isabelle
  imports Complex_Main "HOL-Library.Log_Nat" "HOL-Library.Multiset" "HOL-Library.Product_Lexorder"
begin

section \<open>JavaScript strings and values\<close>

text \<open>
  A JavaScript string is a sequence of UTF-16 code units; \<open>length\<close>, \<open>substring\<close>,
  \<open>padStart\<close> and the regular expressions of \<^verbatim>\<open>src/lib/dataCleaner.js\<close> (none has the
  \<^verbatim>\<open>u\<close> flag) all count code units. A string is therefore a list of code units, each a
  natural number; \<open>js\<close> embeds an ASCII literal. The rupee sign of
  \<^verbatim>\<open>normalizeNumber\<close> is the single code unit U+20B9 = 8377.
\<close>

type_synonym jstring = "nat list"

definition js :: "string \<Rightarrow> jstring" where
  "js s = map of_char s"

text \<open>
  The values that occur in a row of the cleaner: \<^verbatim>\<open>null\<close>, \<^verbatim>\<open>undefined\<close> (a property
  that is absent) and strings. \<open>truthy\<close> is JavaScript's ToBoolean on these: the empty
  string is the only falsy string.
\<close>

datatype jsval = JNull | JUndefined | JStr jstring

fun truthy :: "jsval \<Rightarrow> bool" where
  "truthy JNull = False"
| "truthy JUndefined = False"
| "truthy (JStr s) = (s \<noteq> [])"

text \<open>\<^verbatim>\<open>a || b\<close> on values.\<close>

definition orElse :: "jsval \<Rightarrow> jsval \<Rightarrow> jsval" where
  "orElse a b = (if truthy a then a else b)"

text \<open>ToString, as a template literal or \<^verbatim>\<open>parseFloat\<close> applies it.\<close>

fun toStr :: "jsval \<Rightarrow> jstring" where
  "toStr JNull = js ''null''"
| "toStr JUndefined = js ''undefined''"
| "toStr (JStr s) = s"

text \<open>
  White space as \<^verbatim>\<open>String.prototype.trim\<close>, \<^verbatim>\<open>parseFloat\<close> and the class \<^verbatim>\<open>\s\<close>
  understand it: the WhiteSpace and LineTerminator code points of ECMAScript.
\<close>

definition isWhiteSpace :: "nat \<Rightarrow> bool" where
  "isWhiteSpace c = ((9 \<le> c \<and> c \<le> 13) \<or> c = 32 \<or> c = 160 \<or> c = 5760 \<or>
     (8192 \<le> c \<and> c \<le> 8202) \<or> c = 8232 \<or> c = 8233 \<or> c = 8239 \<or> c = 8287 \<or>
     c = 12288 \<or> c = 65279)"

definition trimStart :: "jstring \<Rightarrow> jstring" where
  "trimStart s = dropWhile isWhiteSpace s"

definition trim :: "jstring \<Rightarrow> jstring" where
  "trim s = rev (dropWhile isWhiteSpace (rev (dropWhile isWhiteSpace s)))"

text \<open>The class \<^verbatim>\<open>\d\<close> without the \<^verbatim>\<open>u\<close> flag: the ASCII digits.\<close>

definition isDigit :: "nat \<Rightarrow> bool" where
  "isDigit c = (48 \<le> c \<and> c \<le> 57)"

text \<open>
  \<^verbatim>\<open>toLowerCase\<close>. The program uses a lower-cased title only as the receiver of
  \<^verbatim>\<open>includes\<close> with an ASCII keyword, so what matters is where ASCII code units end up.
  The only characters outside ASCII whose lower case contains an ASCII code unit are
  U+0130 (to \<open>i\<close> followed by U+0307) and the Kelvin sign U+212A (to \<open>k\<close>); any other
  character outside ASCII lower-cases to characters outside ASCII and is kept as it is
  here, which no \<^verbatim>\<open>includes\<close> test with an ASCII keyword can tell apart.
\<close>

definition lowerUnit :: "nat \<Rightarrow> jstring" where
  "lowerUnit c = (if 65 \<le> c \<and> c \<le> 90 then [c + 32]
                  else if c = 304 then [105, 775]
                  else if c = 8490 then [107]
                  else [c])"

definition toLowerCase :: "jstring \<Rightarrow> jstring" where
  "toLowerCase s = concat (map lowerUnit s)"

definition startsWith :: "jstring \<Rightarrow> jstring \<Rightarrow> bool" where
  "startsWith s p = (take (length p) s = p)"

fun includes_js :: "jstring \<Rightarrow> jstring \<Rightarrow> bool" where
  "includes_js [] p = (p = [])"
| "includes_js (c # cs) p = (startsWith (c # cs) p \<or> includes_js cs p)"

text \<open>\<^verbatim>\<open>s.padStart(2, '0')\<close>.\<close>

definition padStart2 :: "jstring \<Rightarrow> jstring" where
  "padStart2 s = replicate (2 - length s) 48 @ s"

section \<open>JavaScript numbers\<close>

text \<open>
  A Number is an IEEE 754 binary64 value. A finite one is carried by the rational it
  denotes; \<open>roundDouble\<close> is the rounding every arithmetic operation and every numeric
  literal goes through: to the nearest value with a 53-bit significand, ties to the even
  significand, with gradual underflow (the exponent of the last bit never goes under
  \<open>-1074\<close>) and overflow to an infinity (the exponent of the last bit never goes
  over \<open>971\<close>, with a significand below \<open>2 ^ 53 = 9007199254740992\<close>). The sign of a zero is not recorded:
  every use of a number in this program (\<^verbatim>\<open>toString\<close>, \<^verbatim>\<open>toFixed\<close> of a value that is
  not negative, \<^verbatim>\<open>||\<close>, comparison) treats \<open>-0\<close> as \<open>0\<close>.
\<close>

datatype jsnum = NaN | PosInf | NegInf | Fin rat

definition pow2 :: "int \<Rightarrow> rat" where
  "pow2 e = (if 0 \<le> e then 2 ^ nat e else 1 / 2 ^ nat (- e))"

definition pow10 :: "int \<Rightarrow> rat" where
  "pow10 e = (if 0 \<le> e then 10 ^ nat e else 1 / 10 ^ nat (- e))"

text \<open>\<open>ilog2 q\<close> is \<open>\<lfloor>log\<^sub>2 q\<rfloor>\<close> for a positive rational.\<close>

definition ilog2 :: "rat \<Rightarrow> int" where
  "ilog2 q = (let (p, d) = quotient_of q; k = bitlen p - bitlen d
              in if pow2 k \<le> q then k else k - 1)"

definition roundHalfEven :: "rat \<Rightarrow> int" where
  "roundHalfEven x = (let f = \<lfloor>x\<rfloor>; r = x - of_int f
     in if r < 1 / 2 then f else if 1 / 2 < r then f + 1 else if even f then f else f + 1)"

definition roundDouble :: "rat \<Rightarrow> jsnum" where
  "roundDouble q = (if q = 0 then Fin 0 else
     (let e = max (ilog2 \<bar>q\<bar> - 52) (- 1074);
          n = roundHalfEven (q / pow2 e)
      in if 971 < e \<or> (e = 971 \<and> 9007199254740992 \<le> \<bar>n\<bar>)
         then (if 0 < q then PosInf else NegInf)
         else Fin (of_int n * pow2 e)))"


text \<open>
  Subtraction, multiplication and division of Numbers. A zero divisor is \<open>+0\<close>: the
  program divides by counts and by positive constants only.
\<close>

fun jsSub :: "jsnum \<Rightarrow> jsnum \<Rightarrow> jsnum" where
  "jsSub (Fin a) (Fin b) = roundDouble (a - b)"
| "jsSub NaN y = NaN"
| "jsSub x NaN = NaN"
| "jsSub PosInf PosInf = NaN"
| "jsSub NegInf NegInf = NaN"
| "jsSub PosInf y = PosInf"
| "jsSub NegInf y = NegInf"
| "jsSub (Fin a) PosInf = NegInf"
| "jsSub (Fin a) NegInf = PosInf"

fun jsMul :: "jsnum \<Rightarrow> jsnum \<Rightarrow> jsnum" where
  "jsMul (Fin a) (Fin b) = roundDouble (a * b)"
| "jsMul NaN y = NaN"
| "jsMul x NaN = NaN"
| "jsMul PosInf (Fin b) = (if b = 0 then NaN else if 0 < b then PosInf else NegInf)"
| "jsMul NegInf (Fin b) = (if b = 0 then NaN else if 0 < b then NegInf else PosInf)"
| "jsMul (Fin a) PosInf = (if a = 0 then NaN else if 0 < a then PosInf else NegInf)"
| "jsMul (Fin a) NegInf = (if a = 0 then NaN else if 0 < a then NegInf else PosInf)"
| "jsMul PosInf PosInf = PosInf"
| "jsMul NegInf NegInf = PosInf"
| "jsMul PosInf NegInf = NegInf"
| "jsMul NegInf PosInf = NegInf"

fun jsDiv :: "jsnum \<Rightarrow> jsnum \<Rightarrow> jsnum" where
  "jsDiv (Fin a) (Fin b) =
     (if b = 0 then (if a = 0 then NaN else if 0 < a then PosInf else NegInf)
      else roundDouble (a / b))"
| "jsDiv NaN y = NaN"
| "jsDiv x NaN = NaN"
| "jsDiv PosInf (Fin b) = (if 0 \<le> b then PosInf else NegInf)"
| "jsDiv NegInf (Fin b) = (if 0 \<le> b then NegInf else PosInf)"
| "jsDiv (Fin a) y = Fin 0"
| "jsDiv x y = NaN"

text \<open>The operator \<^verbatim>\<open><\<close> on Numbers; every comparison with \<^verbatim>\<open>NaN\<close> is false.\<close>

fun jsLess :: "jsnum \<Rightarrow> jsnum \<Rightarrow> bool" where
  "jsLess NaN y = False"
| "jsLess x NaN = False"
| "jsLess (Fin a) (Fin b) = (a < b)"
| "jsLess x NegInf = False"
| "jsLess PosInf y = False"
| "jsLess NegInf y = True"
| "jsLess (Fin a) PosInf = True"

text \<open>A count as a Number; counts stay below \<open>2 ^ 53\<close>, where they are exact.\<close>

definition numOfNat :: "nat \<Rightarrow> jsnum" where
  "numOfNat n = Fin (of_nat n)"

subsection \<open>Number to string\<close>

fun decimalOf :: "nat \<Rightarrow> jstring" where
  "decimalOf n = (if n < 10 then [48 + n] else decimalOf (n div 10) @ [48 + n mod 10])"

declare decimalOf.simps [simp del]

text \<open>\<open>ilog10 q\<close> is \<open>\<lfloor>log\<^sub>1\<^sub>0 q\<rfloor>\<close> for a positive rational in the range of binary64.\<close>

definition ilog10 :: "rat \<Rightarrow> int" where
  "ilog10 q = (let g = (ilog2 q * 30103) div 100000
               in if pow10 (g + 1) \<le> q then g + 1 else if pow10 g \<le> q then g else g - 1)"

text \<open>
  Number::toString(x) of ECMAScript for a positive finite \<open>x\<close>: integers \<open>n\<close>, \<open>k\<close>,
  \<open>s\<close> with \<open>k \<ge> 1\<close>, \<open>10 ^ (k - 1) \<le> s < 10 ^ k\<close>, \<open>s * 10 ^ (n - k)\<close> rounding to
  \<open>x\<close>, and \<open>k\<close> as small as possible (seventeen digits always suffice); among several
  \<open>s\<close> the one closest to \<open>x\<close>. \<open>digitCands x k n\<close> lists the \<open>s\<close> for one \<open>k\<close> and
  \<open>n\<close>.
\<close>

definition digitCands :: "rat \<Rightarrow> nat \<Rightarrow> int \<Rightarrow> (int \<times> int) list" where
  "digitCands x k n = (let sc = pow10 (n - int k); f = \<lfloor>x / sc\<rfloor>
     in map (\<lambda>s. (s, n))
          (filter (\<lambda>s. 10 ^ (k - 1) \<le> s \<and> s < 10 ^ k \<and> roundDouble (of_int s * sc) = Fin x)
             [f, f + 1]))"

definition closer :: "rat \<Rightarrow> nat \<Rightarrow> (int \<times> int) \<Rightarrow> (int \<times> int) \<Rightarrow> (int \<times> int)" where
  "closer x k a b = (let da = \<bar>of_int (fst a) * pow10 (snd a - int k) - x\<bar>;
                         db = \<bar>of_int (fst b) * pow10 (snd b - int k) - x\<bar>
     in if da < db then a else if db < da then b else if even (fst a) then a else b)"

fun shortestFrom :: "rat \<Rightarrow> int \<Rightarrow> nat \<Rightarrow> nat \<Rightarrow> (nat \<times> int \<times> int)" where
  "shortestFrom x n0 k 0 = (k, \<lfloor>x / pow10 (n0 - int k)\<rfloor>, n0)"
| "shortestFrom x n0 k (Suc fuel) =
     (case digitCands x k n0 @ digitCands x k (n0 + 1) of
        [] \<Rightarrow> shortestFrom x n0 (Suc k) fuel
      | c # cs \<Rightarrow> (let b = foldl (closer x k) c cs in (k, fst b, snd b)))"

definition posToString :: "rat \<Rightarrow> jstring" where
  "posToString x = (case shortestFrom x (ilog10 x + 1) 1 (Suc (Suc (Suc (Suc (Suc (Suc (Suc (Suc
       (Suc (Suc (Suc (Suc (Suc (Suc (Suc (Suc (Suc 0))))))))))))))))) of (k, s, n) \<Rightarrow>
     (let ds = decimalOf (nat s) in
      if int k \<le> n \<and> n \<le> 21 then ds @ replicate (nat (n - int k)) 48
      else if 0 < n \<and> n \<le> 21 then take (nat n) ds @ [46] @ drop (nat n) ds
      else if - 6 < n \<and> n \<le> 0 then [48, 46] @ replicate (nat (- n)) 48 @ ds
      else (let e = n - 1; sg = (if 0 \<le> e then 43 else 45); es = decimalOf (nat \<bar>e\<bar>)
            in if k = 1 then ds @ [101, sg] @ es
               else take 1 ds @ [46] @ drop 1 ds @ [101, sg] @ es)))"

definition numToString :: "jsnum \<Rightarrow> jstring" where
  "numToString v = (case v of
      NaN \<Rightarrow> js ''NaN''
    | PosInf \<Rightarrow> js ''Infinity''
    | NegInf \<Rightarrow> js ''-Infinity''
    | Fin x \<Rightarrow> (if x = 0 then js ''0'' else if x < 0 then 45 # posToString (- x)
               else posToString x))"

text \<open>
  \<^verbatim>\<open>x.toFixed(f)\<close>: the integer \<open>n\<close> with \<open>n / 10 ^ f\<close> closest to \<open>\<bar>x\<bar>\<close> (the larger one
  of two), written with at least \<open>f + 1\<close> digits and a point before the last \<open>f\<close>.
\<close>

definition toFixed :: "nat \<Rightarrow> jsnum \<Rightarrow> jstring" where
  "toFixed f v = (case v of
      Fin x \<Rightarrow>
        (if 10 ^ 21 \<le> \<bar>x\<bar> then numToString v
         else (let n = nat \<lfloor>\<bar>x\<bar> * 10 ^ f + 1 / 2\<rfloor>;
                   m = decimalOf n;
                   m' = replicate (f + 1 - length m) 48 @ m;
                   k = length m'
               in (if x < 0 then [45] else []) @
                  (if f = 0 then m' else take (k - f) m' @ [46] @ drop (k - f) m')))
    | _ \<Rightarrow> numToString v)"

subsection \<open>parseFloat\<close>

definition digitsValue :: "jstring \<Rightarrow> int" where
  "digitsValue ds = foldl (\<lambda>a c. 10 * a + (int c - 48)) 0 ds"

text \<open>
  The exponent part \<^verbatim>\<open>e\<close>, an optional sign and digits; without a digit there is no
  exponent part and the literal ends before the \<^verbatim>\<open>e\<close>.
\<close>

definition exponentPart :: "jstring \<Rightarrow> int" where
  "exponentPart r = (case r of
       [] \<Rightarrow> 0
     | c # r1 \<Rightarrow>
         (if c = 101 \<or> c = 69 then
            (case r1 of
               [] \<Rightarrow> 0
             | sg # r2 \<Rightarrow>
                 (if sg = 45 then
                    (if takeWhile isDigit r2 = [] then 0 else - digitsValue (takeWhile isDigit r2))
                  else if sg = 43 then digitsValue (takeWhile isDigit r2)
                  else digitsValue (takeWhile isDigit r1)))
          else 0))"

text \<open>
  \<^verbatim>\<open>parseFloat\<close>: leading white space is skipped, the longest prefix that is a
  StrDecimalLiteral is read (an optional sign, then \<^verbatim>\<open>Infinity\<close> or digits with an
  optional fraction and exponent), what follows it is ignored, and the mathematical value
  is rounded to a Number; \<^verbatim>\<open>NaN\<close> when no prefix is a literal.
\<close>

definition parseFloat :: "jstring \<Rightarrow> jsnum" where
  "parseFloat input =
     (let s0 = trimStart input;
          neg = (case s0 of [] \<Rightarrow> False | c # r \<Rightarrow> c = 45);
          s1 = (case s0 of [] \<Rightarrow> [] | c # r \<Rightarrow> if c = 45 \<or> c = 43 then r else s0)
      in if startsWith s1 (js ''Infinity'') then (if neg then NegInf else PosInf)
         else
           (let ip = takeWhile isDigit s1;
                r1 = dropWhile isDigit s1;
                dot = (case r1 of [] \<Rightarrow> False | c # r \<Rightarrow> c = 46);
                fp = (if dot then takeWhile isDigit (tl r1) else []);
                r2 = (if dot then dropWhile isDigit (tl r1) else r1)
            in if ip = [] \<and> fp = [] then NaN
               else
                 (let mv = of_int (digitsValue (ip @ fp)) *
                             pow10 (exponentPart r2 - int (length fp))
                  in roundDouble (if neg then - mv else mv))))"


section \<open>The value normalizer\<close>

text \<open>
  \<^verbatim>\<open>/^\d{4}-\d{2}-\d{2}/.test(str)\<close>: four digits, a hyphen, two digits, a hyphen and
  two digits at the start of the text; anything may follow.
\<close>

definition isoPrefix :: "jstring \<Rightarrow> bool" where
  "isoPrefix str = (case str of
       y1 # y2 # y3 # y4 # h1 # m1 # m2 # h2 # d1 # d2 # rest \<Rightarrow>
         isDigit y1 \<and> isDigit y2 \<and> isDigit y3 \<and> isDigit y4 \<and> h1 = 45 \<and>
         isDigit m1 \<and> isDigit m2 \<and> h2 = 45 \<and> isDigit d1 \<and> isDigit d2
     | _ \<Rightarrow> False)"

text \<open>
  \<^verbatim>\<open>str.match(/^(\d{1,2})[\/\-](\d{1,2})[\/\-](\d{4})$/)\<close> and its three groups. A
  separator is not a digit, so the first group is the whole run of digits the text
  starts with, which must have one or two digits and a separator after it; the same for
  the second group; the third group is the rest of the text, exactly four digits.
\<close>

definition isSep :: "nat \<Rightarrow> bool" where
  "isSep c = (c = 47 \<or> c = 45)"

definition matchDMY :: "jstring \<Rightarrow> (jstring \<times> jstring \<times> jstring) option" where
  "matchDMY str =
     (let g1 = takeWhile isDigit str; r1 = dropWhile isDigit str
      in if (length g1 = 1 \<or> length g1 = 2) \<and> r1 \<noteq> [] \<and> isSep (hd r1) then
           (let g2 = takeWhile isDigit (tl r1); r2 = dropWhile isDigit (tl r1)
            in if (length g2 = 1 \<or> length g2 = 2) \<and> r2 \<noteq> [] \<and> isSep (hd r2) \<and>
                  length (tl r2) = 4 \<and> list_all isDigit (tl r2)
               then Some (g1, g2, tl r2) else None)
         else None)"

text \<open>
  \<^verbatim>\<open>normalizeDate\<close>. The source tests the same pattern a second time for a month-first
  reading; the second test is kept as it is written and can never be reached with a
  match.
\<close>

definition normalizeDate :: "jstring \<Rightarrow> jsval" where
  "normalizeDate str =
     (if str = [] then JNull
      else if isoPrefix str then JStr (take 10 str)
      else (case matchDMY str of
              Some (g1, g2, g3) \<Rightarrow> JStr (g3 @ js ''-'' @ padStart2 g2 @ js ''-'' @ padStart2 g1)
            | None \<Rightarrow>
                (case matchDMY str of
                   Some (g1, g2, g3) \<Rightarrow>
                     JStr (g3 @ js ''-'' @ padStart2 g1 @ js ''-'' @ padStart2 g2)
                 | None \<Rightarrow> JStr str)))"

text \<open>The global replacement in \<^verbatim>\<open>normalizeNumber\<close>: the rupee sign, the dollar sign, the comma
  and white space are deleted.\<close>

definition isStripped :: "nat \<Rightarrow> bool" where
  "isStripped c = (c = 8377 \<or> c = 36 \<or> c = 44 \<or> isWhiteSpace c)"

definition stripNumber :: "jstring \<Rightarrow> jstring" where
  "stripNumber str = filter (\<lambda>c. \<not> isStripped c) str"

definition normalizeNumber :: "jstring \<Rightarrow> jsval" where
  "normalizeNumber str =
     (if str = [] then JNull
      else (let num = parseFloat (stripNumber str)
            in if num = NaN then JStr str else JStr (numToString num)))"

text \<open>The keywords of \<^verbatim>\<open>cleanValue\<close> that send a column to \<^verbatim>\<open>normalizeNumber\<close>.\<close>

definition numericKeywords :: "jstring list" where
  "numericKeywords =
     [js ''amount'', js ''value'', js ''billed'', js ''collected'', js ''receivable'']"

text \<open>
  \<^verbatim>\<open>cleanValue(text, columnTitle)\<close>; the text of a field is \<^verbatim>\<open>null\<close>, absent or a
  string, the title is a string.
\<close>

definition cleanValue :: "jsval \<Rightarrow> jstring \<Rightarrow> jsval" where
  "cleanValue text columnTitle =
     (case text of
        JNull \<Rightarrow> JNull
      | JUndefined \<Rightarrow> JNull
      | JStr s \<Rightarrow>
          (if s = [] then JNull
           else if s = js ''#VALUE!'' then JNull
           else (let t = trim s in
                 if t = [] then JNull
                 else (let lower = toLowerCase columnTitle in
                       if includes_js lower (js ''date'') then normalizeDate t
                       else if list_ex (includes_js lower) numericKeywords then normalizeNumber t
                       else JStr t))))"


section \<open>Objects as property lists\<close>

text \<open>
  A plain object is its list of own properties in insertion order. Assigning to a
  property that exists replaces its value in place; assigning to a new one appends it;
  reading an own property that does not exist gives \<^verbatim>\<open>undefined\<close>. An object made by
  \<^verbatim>\<open>{}\<close> also inherits the members of \<^verbatim>\<open>Object.prototype\<close>, whose names are
  \<open>protoNames\<close>: the places that read or write a property under a name that can be one
  of them (\<^verbatim>\<open>colMap[cv.id]\<close>, \<^verbatim>\<open>colMap[c.id] = ...\<close>, \<^verbatim>\<open>row[title] = ...\<close>,
  \<^verbatim>\<open>groups[val]\<close>) are modelled with them. The rule that \<^verbatim>\<open>Object.keys\<close> lists keys
  that are array indices first is not modelled; it matters to none of the functions
  below: they go through all entries, or look for the first key that contains a word.
\<close>

type_synonym 'v obj = "(jstring \<times> 'v) list"

type_synonym row = "jsval obj"

fun setProp :: "'v obj \<Rightarrow> jstring \<Rightarrow> 'v \<Rightarrow> 'v obj" where
  "setProp [] k v = [(k, v)]"
| "setProp ((k', v') # ps) k v = (if k' = k then (k, v) # ps else (k', v') # setProp ps k v)"

definition getProp :: "row \<Rightarrow> jstring \<Rightarrow> jsval" where
  "getProp r k = (case map_of r k of Some v \<Rightarrow> v | None \<Rightarrow> JUndefined)"

definition protoNames :: "jstring list" where
  "protoNames = [js ''constructor'', js ''__defineGetter__'', js ''__defineSetter__'',
     js ''hasOwnProperty'', js ''__lookupGetter__'', js ''__lookupSetter__'',
     js ''isPrototypeOf'', js ''propertyIsEnumerable'', js ''toString'', js ''valueOf'',
     js ''__proto__'', js ''toLocaleString'']"

section \<open>The board snapshot and cleanBoardData\<close>

record column =
  c_id :: jstring
  c_title :: jstring

record column_value =
  cv_id :: jstring
  cv_text :: jsval

record item =
  item_id :: jsval
  item_name :: jsval
  column_values :: "column_value list"

text \<open>
  The argument of \<^verbatim>\<open>cleanBoardData\<close>, destructured into \<^verbatim>\<open>name\<close>, \<^verbatim>\<open>columns\<close> and
  \<^verbatim>\<open>items\<close>. A property that the snapshot does not have reads as \<^verbatim>\<open>undefined\<close>: the
  name is then \<open>JUndefined\<close>, the two lists are \<open>None\<close>.
\<close>

record boardData =
  bd_name :: jsval
  bd_columns :: "column list option"
  bd_items :: "item list option"

record stats =
  totalRows :: nat
  cleanedRows :: nat
  removedRows :: nat
  missingFields :: nat
  totalFields :: nat
  completeness :: jstring

record cleanedBoard =
  boardName :: jsval
  columns :: "jstring list"
  data :: "row list"
  stats :: stats
  qualityIssues :: "jstring list"

text \<open>
  The way the functions below fail: a method that a value does not have is called
  (\<^verbatim>\<open>forEach\<close> or \<^verbatim>\<open>map\<close> of \<^verbatim>\<open>undefined\<close>, \<^verbatim>\<open>toLowerCase\<close> of a value that is not a
  string, \<^verbatim>\<open>push\<close> of a value that is not an array) and the engine throws a TypeError;
  the error carries the name of the method.
\<close>

datatype error = TypeError string

text \<open>
  The map from column id to title, \<^verbatim>\<open>colMap[c.id] = c.title\<close> for each column in turn.
  \<^verbatim>\<open>colMap\<close> starts as \<^verbatim>\<open>{}\<close>. Under the name \<^verbatim>\<open>__proto__\<close> it inherits an accessor, so
  the assignment calls the setter, which ignores a string: no entry is made for a column
  whose id is \<^verbatim>\<open>__proto__\<close>. The other inherited members are plain data properties, and an
  assignment under their name makes an own entry like any other.
\<close>

definition buildColMap :: "column list \<Rightarrow> jstring obj" where
  "buildColMap cols =
     foldl (\<lambda>m c. if c_id c = js ''__proto__'' then m else setProp m (c_id c) (c_title c)) [] cols"

text \<open>
  The value of \<^verbatim>\<open>colMap[cv.id] || cv.id\<close>: a string, the title or the id, or, when the id
  is no own key of \<^verbatim>\<open>colMap\<close> and names a member of \<^verbatim>\<open>Object.prototype\<close>, that member
  (\<open>Inherited\<close> with its name): a function, or under \<^verbatim>\<open>__proto__\<close> the object
  \<^verbatim>\<open>Object.prototype\<close> itself; both are truthy.
\<close>

datatype title = Title jstring | Inherited jstring

definition resolveTitle :: "jstring obj \<Rightarrow> jstring \<Rightarrow> title" where
  "resolveTitle colMap i = (case map_of colMap i of
       Some t \<Rightarrow> (if t = [] then Title i else Title t)
     | None \<Rightarrow> (if i \<in> set protoNames then Inherited i else Title i))"

text \<open>
  The property name that \<^verbatim>\<open>row[title]\<close> uses: the title when it is a string, and the string
  of the inherited member otherwise, which is \<^verbatim>\<open>[object Object]\<close> for \<^verbatim>\<open>Object.prototype\<close>
  and the source text of a built-in function for a function; the member \<^verbatim>\<open>constructor\<close>
  is the function named \<^verbatim>\<open>Object\<close>, each other function has the name of its property.
  ECMAScript leaves the white space of that text to the engine: this is the text of V8;
  other engines break the line around \<^verbatim>\<open>[native code]\<close>. No proof below depends on
  what the text is.
\<close>

definition inheritedString :: "jstring \<Rightarrow> jstring" where
  "inheritedString n =
     (if n = js ''__proto__'' then js ''[object Object]''
      else js ''function '' @ (if n = js ''constructor'' then js ''Object'' else n) @
           js ''() { [native code] }'')"

definition titleKey :: "title \<Rightarrow> jstring" where
  "titleKey t = (case t of Title s \<Rightarrow> s | Inherited n \<Rightarrow> inheritedString n)"

text \<open>
  The call \<^verbatim>\<open>cleanValue(cv.text, title)\<close>. With a string for the title it is \<open>cleanValue\<close>.
  With an inherited member for the title, the first lines of \<^verbatim>\<open>cleanValue\<close> still return
  \<^verbatim>\<open>null\<close> for a text that is \<^verbatim>\<open>null\<close>, absent, empty, \<^verbatim>\<open>#VALUE!\<close> or white space only
  (\<open>blankText\<close>); any other text reaches \<^verbatim>\<open>columnTitle.toLowerCase()\<close>, which throws.
\<close>

definition blankText :: "jsval \<Rightarrow> bool" where
  "blankText text = (case text of
       JNull \<Rightarrow> True
     | JUndefined \<Rightarrow> True
     | JStr s \<Rightarrow> s = [] \<or> s = js ''#VALUE!'' \<or> trim s = [])"

definition cleanValueAt :: "jsval \<Rightarrow> title \<Rightarrow> error + jsval" where
  "cleanValueAt text t = (case t of
       Title s \<Rightarrow> Inr (cleanValue text s)
     | Inherited n \<Rightarrow> (if blankText text then Inr JNull else Inl (TypeError ''toLowerCase'')))"

text \<open>
  The assignment \<^verbatim>\<open>row[key] = v\<close> on a row, which is its own properties and whether its
  prototype has been removed. \<^verbatim>\<open>row\<close> starts as an object literal and inherits the accessor
  \<^verbatim>\<open>__proto__\<close>: an assignment under that name calls the setter, which removes the
  prototype when the value is \<^verbatim>\<open>null\<close> and does nothing for a string, and makes no own
  property. Once the prototype is removed the name is a name like any other.
\<close>

definition assignRow :: "row \<times> bool \<Rightarrow> jstring \<Rightarrow> jsval \<Rightarrow> row \<times> bool" where
  "assignRow st k v = (case st of (r, removed) \<Rightarrow>
       if k = js ''__proto__'' \<and> \<not> removed then (r, v = JNull)
       else (setProp r k v, removed))"

text \<open>
  \<^verbatim>\<open>item.column_values.forEach\<close> with the row passed along; an exception ends the loop.
\<close>

fun buildFields :: "jstring obj \<Rightarrow> row \<times> bool \<Rightarrow> column_value list \<Rightarrow> error + row" where
  "buildFields colMap st [] = Inr (fst st)"
| "buildFields colMap st (cv # cvs) =
     (let t = resolveTitle colMap (cv_id cv)
      in case cleanValueAt (cv_text cv) t of
           Inl e \<Rightarrow> Inl e
         | Inr v \<Rightarrow> buildFields colMap (assignRow st (titleKey t) v) cvs)"

text \<open>The callback of \<^verbatim>\<open>items.map\<close>: the flat object of one item, its own properties.\<close>

definition buildRow :: "jstring obj \<Rightarrow> item \<Rightarrow> error + row" where
  "buildRow colMap it =
     buildFields colMap ([(js ''_id'', item_id it), (js ''_name'', item_name it)], False)
       (column_values it)"

text \<open>\<^verbatim>\<open>items.map\<close>: the rows of the items in turn; the first exception ends it.\<close>

fun buildRows :: "jstring obj \<Rightarrow> item list \<Rightarrow> error + row list" where
  "buildRows colMap [] = Inr []"
| "buildRows colMap (it # its) =
     (case buildRow colMap it of
        Inl e \<Rightarrow> Inl e
      | Inr r \<Rightarrow> (case buildRows colMap its of
                   Inl e \<Rightarrow> Inl e
                 | Inr rs \<Rightarrow> Inr (r # rs)))"

text \<open>\<^verbatim>\<open>Object.entries(row).filter(([k]) => !k.startsWith('_'))\<close>.\<close>

definition nonIdentity :: "row \<Rightarrow> row" where
  "nonIdentity r = filter (\<lambda>(k, v). \<not> startsWith k (js ''_'')) r"

text \<open>\<^verbatim>\<open>v === null || v === '' || v === undefined\<close>.\<close>

definition isMissing :: "jsval \<Rightarrow> bool" where
  "isMissing v = (v = JNull \<or> v = JStr [] \<or> v = JUndefined)"

text \<open>
  The callback of \<^verbatim>\<open>rows.filter\<close>, as the verdict it reaches: the empty-row test comes
  first, the header test second, a row that passes both is kept.
\<close>

datatype verdict = DropEmpty | DropHeader | Keep

definition allEmpty :: "row \<Rightarrow> bool" where
  "allEmpty r = list_all (\<lambda>(k, v). isMissing v) (nonIdentity r)"

definition isHeader :: "row \<Rightarrow> bool" where
  "isHeader r = list_ex (\<lambda>(k, v). v = JStr k) (nonIdentity r)"

definition rowVerdict :: "row \<Rightarrow> verdict" where
  "rowVerdict r =
     (if \<not> truthy (getProp r (js ''_name'')) \<and> allEmpty r then DropEmpty
      else if isHeader r then DropHeader
      else Keep)"

text \<open>The note pushed for a header row; code unit 34 is the double quote.\<close>

definition headerNote :: "row \<Rightarrow> jstring" where
  "headerNote r = js ''Removed embedded header row (item: '' @ [34] @
     toStr (orElse (getProp r (js ''_name'')) (JStr (js ''empty''))) @ [34] @ js '')''"

text \<open>
  \<^verbatim>\<open>rows.filter\<close> with the two variables its callback updates, \<^verbatim>\<open>removedRows\<close> and
  \<^verbatim>\<open>qualityIssues\<close>, passed along: the rows kept, and the two variables after the last
  row.
\<close>

fun filterRows :: "row list \<Rightarrow> nat \<Rightarrow> jstring list \<Rightarrow> row list \<times> nat \<times> jstring list" where
  "filterRows [] removed issues = ([], removed, issues)"
| "filterRows (r # rs) removed issues =
     (case rowVerdict r of
        DropEmpty \<Rightarrow> filterRows rs (removed + 1) issues
      | DropHeader \<Rightarrow> filterRows rs (removed + 1) (issues @ [headerNote r])
      | Keep \<Rightarrow> (case filterRows rs removed issues of
                   (kept, removed', issues') \<Rightarrow> (r # kept, removed', issues')))"

text \<open>The count of missing values over the rows kept.\<close>

definition countMissing :: "row list \<Rightarrow> nat" where
  "countMissing rs =
     sum_list (map (\<lambda>r. length (filter (\<lambda>(k, v). \<not> startsWith k (js ''_'') \<and> isMissing v) r)) rs)"

text \<open>
  \<^verbatim>\<open>totalFields ? ((1 - missingFields / totalFields) * 100).toFixed(1) : '100'\<close>
\<close>

definition completenessOf :: "nat \<Rightarrow> nat \<Rightarrow> jstring" where
  "completenessOf nMissing nTotal =
     (if nTotal \<noteq> 0
      then toFixed 1
             (jsMul (jsSub (Fin 1) (jsDiv (numOfNat nMissing) (numOfNat nTotal))) (Fin 100))
      else js ''100'')"

definition removedNote :: "nat \<Rightarrow> jstring" where
  "removedNote removed = js ''Removed '' @ numToString (numOfNat removed) @
     js '' junk/empty/header rows''"

definition missingNote :: "nat \<Rightarrow> nat \<Rightarrow> jstring" where
  "missingNote nMissing nTotal =
     numToString (numOfNat nMissing) @ js '' of '' @ numToString (numOfNat nTotal) @
     js '' field values are missing/null ('' @
     toFixed 1 (jsMul (jsDiv (numOfNat nMissing) (numOfNat nTotal)) (Fin 100)) @ js ''%)''"

definition cleanBoardData :: "boardData \<Rightarrow> error + cleanedBoard" where
  "cleanBoardData bd =
     (case bd_columns bd of
        None \<Rightarrow> Inl (TypeError ''forEach'')
      | Some cols \<Rightarrow>
          (case bd_items bd of
             None \<Rightarrow> Inl (TypeError ''map'')
           | Some its \<Rightarrow>
               (let colMap = buildColMap cols
                in case buildRows colMap its of
                     Inl e \<Rightarrow> Inl e
                   | Inr rows \<Rightarrow>
                  (case filterRows rows 0 [] of
                     (cleaned, removed, issues) \<Rightarrow>
                       (let nTotal = length cleaned * length colMap;
                            nMissing = countMissing cleaned;
                            issues1 = (if 0 < removed then issues @ [removedNote removed]
                                       else issues);
                            issues2 = (if 0 < nMissing
                                       then issues1 @ [missingNote nMissing nTotal]
                                       else issues1)
                        in Inr \<lparr> boardName = bd_name bd,
                                 columns = filter (\<lambda>t. t \<noteq> js ''Name'') (map c_title cols),
                                 data = cleaned,
                                 stats = \<lparr> totalRows = length its,
                                           cleanedRows = length cleaned,
                                           removedRows = removed,
                                           missingFields = nMissing,
                                           totalFields = nTotal,
                                           completeness = completenessOf nMissing nTotal \<rparr>,
                                 qualityIssues = issues2 \<rparr>)))))"


section \<open>Grouping, column roles and the detail tables of dataToContext\<close>

text \<open>\<^verbatim>\<open>row[key] || row._name || 'Unknown'\<close>, as the property name it is used as.\<close>

definition groupKey :: "row \<Rightarrow> jstring \<Rightarrow> jstring" where
  "groupKey r key =
     toStr (orElse (orElse (getProp r key) (getProp r (js ''_name''))) (JStr (js ''Unknown'')))"

text \<open>
  \<^verbatim>\<open>groupBy(data, key)\<close>. \<^verbatim>\<open>groups\<close> starts as \<^verbatim>\<open>{}\<close>, which inherits the members of
  \<^verbatim>\<open>Object.prototype\<close>: for a group key that is one of their names, \<^verbatim>\<open>groups[val]\<close> is
  that member, no array is stored, and \<^verbatim>\<open>groups[val].push\<close> is not a function: a
  TypeError ends the loop. For any other key the row is pushed on the array of its
  group, which is created on first sight.
\<close>

fun groupRows :: "(row list) obj \<Rightarrow> row list \<Rightarrow> jstring \<Rightarrow> error + (row list) obj" where
  "groupRows groups [] key = Inr groups"
| "groupRows groups (r # rs) key =
     (let val = groupKey r key
      in if val \<in> set protoNames then Inl (TypeError ''push'')
         else groupRows
                (setProp groups val (case map_of groups val of None \<Rightarrow> [r] | Some g \<Rightarrow> g @ [r]))
                rs key)"

definition groupBy :: "row list \<Rightarrow> jstring \<Rightarrow> error + (row list) obj" where
  "groupBy rows key = groupRows [] rows key"

text \<open>
  \<^verbatim>\<open>findCol(keys, ...patterns)\<close>: the first key whose lower case contains one of the
  patterns, \<^verbatim>\<open>null\<close> (here \<open>None\<close>) when there is none or when it is the empty string.
\<close>

definition findCol :: "jstring list \<Rightarrow> jstring list \<Rightarrow> jstring option" where
  "findCol keys patterns =
     (case find (\<lambda>k. list_ex (\<lambda>p. includes_js (toLowerCase k) p) patterns) keys of
        None \<Rightarrow> None
      | Some k \<Rightarrow> (if k = [] then None else Some k))"

text \<open>A column as a property name: \<^verbatim>\<open>row[col]\<close> with \<^verbatim>\<open>col\<close> null reads the property
  \<^verbatim>\<open>"null"\<close>.\<close>

definition colKey :: "jstring option \<Rightarrow> jstring" where
  "colKey c = (case c of None \<Rightarrow> js ''null'' | Some k \<Rightarrow> k)"

text \<open>
  \<^verbatim>\<open>parseFloat(row[col]) || 0\<close>: \<^verbatim>\<open>NaN\<close> and zero are falsy. A row that has no own
  property \<^verbatim>\<open>col\<close> reads \<^verbatim>\<open>undefined\<close> or, under the name of an inherited member, a
  function: the string of either parses to \<^verbatim>\<open>NaN\<close>, so the value is \<open>0\<close> both times.
\<close>

definition sortValue :: "jstring option \<Rightarrow> row \<Rightarrow> jsnum" where
  "sortValue col r =
     (let n = parseFloat (toStr (getProp r (colKey col)))
      in if n = NaN \<or> n = Fin 0 then Fin 0 else n)"

text \<open>The comparator of both detail tables: the value of \<open>b\<close> minus the value of \<open>a\<close>.\<close>

definition compareRows :: "jstring option \<Rightarrow> row \<Rightarrow> row \<Rightarrow> jsnum" where
  "compareRows col a b = jsSub (sortValue col b) (sortValue col a)"

text \<open>
  \<^verbatim>\<open>Array.prototype.sort\<close> with a comparator. ECMAScript asks for a stable sort, and
  for a comparator that is consistent (as one that compares a number per element is)
  the result is determined: the elements in the order of the comparator, equal ones in
  their original order. An insertion sort computes it: an element goes in front of the
  sorted rest, behind the elements that the comparator puts strictly before it
  (\<open>cmp y x < 0\<close>; a comparator result \<^verbatim>\<open>NaN\<close> counts as \<open>0\<close>).
\<close>

fun insertBy :: "('a \<Rightarrow> 'a \<Rightarrow> jsnum) \<Rightarrow> 'a \<Rightarrow> 'a list \<Rightarrow> 'a list" where
  "insertBy cmp x [] = [x]"
| "insertBy cmp x (y # ys) =
     (if jsLess (cmp y x) (Fin 0) then y # insertBy cmp x ys else x # y # ys)"

fun jsSort :: "('a \<Rightarrow> 'a \<Rightarrow> jsnum) \<Rightarrow> 'a list \<Rightarrow> 'a list" where
  "jsSort cmp [] = []"
| "jsSort cmp (x # xs) = insertBy cmp x (jsSort cmp xs)"

text \<open>\<^verbatim>\<open>[...].filter(Boolean)\<close> on columns found or not.\<close>

definition present :: "jstring option list \<Rightarrow> jstring list" where
  "present cs = concat (map (\<lambda>c. case c of None \<Rightarrow> [] | Some k \<Rightarrow> [k]) cs)"

text \<open>
  The groupings that a summary makes before its table, \<^verbatim>\<open>groupBy(data, col)\<close> for each
  column in turn: the first one that throws ends the summary, and no table is rendered.
\<close>

fun groupings :: "row list \<Rightarrow> jstring list \<Rightarrow> error option" where
  "groupings rows [] = None"
| "groupings rows (c # cs) =
     (case groupBy rows c of Inl e \<Rightarrow> Some e | Inr g \<Rightarrow> groupings rows cs)"

text \<open>
  \<^verbatim>\<open>buildDealsSummary\<close>: the columns it groups by (\<^verbatim>\<open>if (statusCol)\<close> and so on, in this
  order), and the last block, the table under \<^verbatim>\<open>### TOP 20 DEALS BY VALUE\<close>: the column
  of the values, the columns of the heading line \<^verbatim>\<open>cols\<close>, and the rows shown
  (\<^verbatim>\<open>sorted.slice(0, 20)\<close>), one line each with one cell per column of \<^verbatim>\<open>cols\<close>.
\<close>

definition dealsValueCol :: "jstring list \<Rightarrow> jstring option" where
  "dealsValueCol keys = findCol keys [js ''masked deal'', js ''deal value'', js ''value'']"

definition dealsGroupCols :: "jstring list \<Rightarrow> jstring list" where
  "dealsGroupCols keys = present
     [findCol keys [js ''deal status'', js ''status''],
      findCol keys [js ''sector''],
      findCol keys [js ''deal stage'', js ''stage''],
      findCol keys [js ''owner''],
      findCol keys [js ''probability'', js ''closure prob'']]"

definition dealsCols :: "jstring list \<Rightarrow> jstring list" where
  "dealsCols keys = present
     [findCol keys [js ''deal status'', js ''status''],
      dealsValueCol keys,
      findCol keys [js ''sector''],
      findCol keys [js ''deal stage'', js ''stage''],
      findCol keys [js ''owner''],
      findCol keys [js ''probability'', js ''closure prob'']]"

definition dealsTop :: "row list \<Rightarrow> jstring list \<Rightarrow> row list" where
  "dealsTop rows keys = take 20 (jsSort (compareRows (dealsValueCol keys)) rows)"

text \<open>
  \<^verbatim>\<open>buildWorkOrdersSummary\<close>: the columns it groups by, and the last block, the table
  under \<^verbatim>\<open>### TOP 20 WORK ORDERS BY VALUE\<close>.
\<close>

definition woValueCol :: "jstring list \<Rightarrow> jstring option" where
  "woValueCol keys = findCol keys [js ''amount in rupees (excl'', js ''amount.*excl'']"

definition woGroupCols :: "jstring list \<Rightarrow> jstring list" where
  "woGroupCols keys = present
     [findCol keys [js ''execution status'', js ''execution''],
      findCol keys [js ''sector'']]"

definition woCols :: "jstring list \<Rightarrow> jstring list" where
  "woCols keys = present
     [findCol keys [js ''customer''],
      findCol keys [js ''nature of work'', js ''nature''],
      findCol keys [js ''execution status'', js ''execution''],
      findCol keys [js ''sector''],
      woValueCol keys,
      findCol keys [js ''collected amount'', js ''collected''],
      findCol keys [js ''amount receivable'', js ''receivable'']]"

definition woTop :: "row list \<Rightarrow> jstring list \<Rightarrow> row list" where
  "woTop rows keys = take 20 (jsSort (compareRows (woValueCol keys)) rows)"

text \<open>
  The kind of a board in \<^verbatim>\<open>dataToContext\<close>, decided on the keys of the first row that do
  not start with an underscore: the deals test comes first.
\<close>

datatype boardKind = Deals | WorkOrders | Generic

definition allKeysOf :: "row \<Rightarrow> jstring list" where
  "allKeysOf r = filter (\<lambda>k. \<not> startsWith k (js ''_'')) (map fst r)"

definition boardKindOf :: "jstring list \<Rightarrow> boardKind" where
  "boardKindOf keys =
     (if list_ex (\<lambda>k. includes_js (toLowerCase k) (js ''deal'') \<or>
                      includes_js (toLowerCase k) (js ''closure'') \<or>
                      includes_js (toLowerCase k) (js ''deal stage'')) keys then Deals
      else if list_ex (\<lambda>k. includes_js (toLowerCase k) (js ''execution'') \<or>
                           includes_js (toLowerCase k) (js ''billed'') \<or>
                           includes_js (toLowerCase k) (js ''serial'')) keys then WorkOrders
      else Generic)"

text \<open>
  The detail table that \<^verbatim>\<open>dataToContext\<close> renders for the rows of a cleaned board, as
  the columns of its heading line and the rows of its lines, in their order. A board
  without rows gets no table, and a board of the third kind gets the listing of
  \<^verbatim>\<open>buildGenericCompact\<close>, which is not a table of this shape: \<open>None\<close> for both. A
  grouping that throws ends \<^verbatim>\<open>dataToContext\<close> before the table.
\<close>

definition detailTable :: "row list \<Rightarrow> error + (jstring list \<times> row list) option" where
  "detailTable rows =
     (case rows of
        [] \<Rightarrow> Inr None
      | r # rs \<Rightarrow>
          (case boardKindOf (allKeysOf r) of
             Deals \<Rightarrow>
               (case groupings rows (dealsGroupCols (allKeysOf r)) of
                  Some e \<Rightarrow> Inl e
                | None \<Rightarrow> Inr (Some (dealsCols (allKeysOf r), dealsTop rows (allKeysOf r))))
           | WorkOrders \<Rightarrow>
               (case groupings rows (woGroupCols (allKeysOf r)) of
                  Some e \<Rightarrow> Inl e
                | None \<Rightarrow> Inr (Some (woCols (allKeysOf r), woTop rows (allKeysOf r))))
           | Generic \<Rightarrow> Inr None))"


section \<open>Sample snapshots and rows\<close>

text \<open>A snapshot without a board name, without columns and without items.\<close>

definition namelessBoard :: boardData where
  "namelessBoard = \<lparr> bd_name = JUndefined, bd_columns = Some [], bd_items = Some [] \<rparr>"

text \<open>
  A board with one record, whose only value outside the name is the text \<open>Status\<close> in
  the column titled \<open>Status\<close>.
\<close>

definition statusColumns :: "column list" where
  "statusColumns = [\<lparr> c_id = js ''name'', c_title = js ''Name'' \<rparr>,
                    \<lparr> c_id = js ''status'', c_title = js ''Status'' \<rparr>]"

definition statusItems :: "item list" where
  "statusItems = [\<lparr> item_id = JStr (js ''1''), item_name = JStr (js ''Header''),
                    column_values = [\<lparr> cv_id = js ''status'', cv_text = JStr (js ''Status'') \<rparr>] \<rparr>]"

definition statusBoard :: boardData where
  "statusBoard = \<lparr> bd_name = JStr (js ''Deals''), bd_columns = Some statusColumns,
                   bd_items = Some statusItems \<rparr>"

text \<open>A board with a header row, an empty row and a row of data.\<close>

definition mixedColumns :: "column list" where
  "mixedColumns = [\<lparr> c_id = js ''name'', c_title = js ''Name'' \<rparr>,
                   \<lparr> c_id = js ''status'', c_title = js ''Status'' \<rparr>,
                   \<lparr> c_id = js ''sector'', c_title = js ''Sector'' \<rparr>]"

definition mixedItems :: "item list" where
  "mixedItems =
     [\<lparr> item_id = JStr (js ''1''), item_name = JStr (js ''Header''),
        column_values = [\<lparr> cv_id = js ''status'', cv_text = JStr (js ''Status'') \<rparr>,
                         \<lparr> cv_id = js ''sector'', cv_text = JStr (js ''Sector'') \<rparr>] \<rparr>,
      \<lparr> item_id = JStr (js ''2''), item_name = JStr [],
        column_values = [\<lparr> cv_id = js ''status'', cv_text = JNull \<rparr>,
                         \<lparr> cv_id = js ''sector'', cv_text = JStr (js ''  '') \<rparr>] \<rparr>,
      \<lparr> item_id = JStr (js ''3''), item_name = JStr (js ''Acme''),
        column_values = [\<lparr> cv_id = js ''status'', cv_text = JStr (js '' Open '') \<rparr>,
                         \<lparr> cv_id = js ''sector'', cv_text = JStr (js ''Mining'') \<rparr>] \<rparr>]"

definition mixedBoard :: boardData where
  "mixedBoard = \<lparr> bd_name = JStr (js ''Deals''), bd_columns = Some mixedColumns,
                  bd_items = Some mixedItems \<rparr>"

text \<open>
  A board with the columns \<open>Status\<close> and \<open>Sector\<close> and one record that has a field for
  \<open>Status\<close> only.
\<close>

definition sparseColumns :: "column list" where
  "sparseColumns = [\<lparr> c_id = js ''status'', c_title = js ''Status'' \<rparr>,
                    \<lparr> c_id = js ''sector'', c_title = js ''Sector'' \<rparr>]"

definition sparseItems :: "item list" where
  "sparseItems = [\<lparr> item_id = JStr (js ''1''), item_name = JStr (js ''Acme''),
                    column_values = [\<lparr> cv_id = js ''status'', cv_text = JStr (js ''Open'') \<rparr>] \<rparr>]"

definition sparseBoard :: boardData where
  "sparseBoard = \<lparr> bd_name = JStr (js ''Deals''), bd_columns = Some sparseColumns,
                   bd_items = Some sparseItems \<rparr>"

text \<open>Snapshots without a column list and without an item list.\<close>

definition columnlessBoard :: boardData where
  "columnlessBoard = \<lparr> bd_name = JStr (js ''Deals''), bd_columns = None,
                       bd_items = Some statusItems \<rparr>"

definition itemlessBoard :: boardData where
  "itemlessBoard = \<lparr> bd_name = JStr (js ''Deals''), bd_columns = Some statusColumns,
                     bd_items = None \<rparr>"

text \<open>
  A board whose record has a field under the id \<open>constructor\<close>, which is the id of no
  column.
\<close>

definition strayItems :: "item list" where
  "strayItems = [\<lparr> item_id = JStr (js ''1''), item_name = JStr (js ''Acme''),
                   column_values = [\<lparr> cv_id = js ''constructor'', cv_text = JStr (js ''x'') \<rparr>] \<rparr>]"

definition strayBoard :: boardData where
  "strayBoard = \<lparr> bd_name = JStr (js ''Deals''), bd_columns = Some statusColumns,
                  bd_items = Some strayItems \<rparr>"

text \<open>
  A board of five columns and eight records: six records have a status and no sector,
  two have a status only.
\<close>

definition surveyColumns :: "column list" where
  "surveyColumns = [\<lparr> c_id = js ''status'', c_title = js ''Status'' \<rparr>,
                    \<lparr> c_id = js ''sector'', c_title = js ''Sector'' \<rparr>,
                    \<lparr> c_id = js ''owner'', c_title = js ''Owner'' \<rparr>,
                    \<lparr> c_id = js ''stage'', c_title = js ''Stage'' \<rparr>,
                    \<lparr> c_id = js ''region'', c_title = js ''Region'' \<rparr>]"

definition gapItem :: item where
  "gapItem = \<lparr> item_id = JStr (js ''1''), item_name = JStr (js ''Acme''),
               column_values = [\<lparr> cv_id = js ''status'', cv_text = JStr (js ''Open'') \<rparr>,
                                \<lparr> cv_id = js ''sector'', cv_text = JNull \<rparr>] \<rparr>"

definition openItem :: item where
  "openItem = \<lparr> item_id = JStr (js ''2''), item_name = JStr (js ''Beta''),
                column_values = [\<lparr> cv_id = js ''status'', cv_text = JStr (js ''Open'') \<rparr>] \<rparr>"

definition surveyItems :: "item list" where
  "surveyItems = [gapItem, gapItem, gapItem, gapItem, gapItem, gapItem, openItem, openItem]"

definition surveyBoard :: boardData where
  "surveyBoard = \<lparr> bd_name = JStr (js ''Survey''), bd_columns = Some surveyColumns,
                   bd_items = Some surveyItems \<rparr>"

text \<open>Cleaned rows of a deals board: the values 300, 500 and 300 again.\<close>

definition alphaDeal :: row where
  "alphaDeal = [(js ''_id'', JStr (js ''1'')), (js ''_name'', JStr (js ''Alpha'')),
                (js ''Deal Value'', JStr (js ''300'')), (js ''Deal Stage'', JStr (js ''Won''))]"

definition betaDeal :: row where
  "betaDeal = [(js ''_id'', JStr (js ''2'')), (js ''_name'', JStr (js ''Beta'')),
               (js ''Deal Value'', JStr (js ''500'')), (js ''Deal Stage'', JStr (js ''Open''))]"

definition gammaDeal :: row where
  "gammaDeal = [(js ''_id'', JStr (js ''3'')), (js ''_name'', JStr (js ''Gamma'')),
                (js ''Deal Value'', JStr (js ''300'')), (js ''Deal Stage'', JStr (js ''Lost''))]"

definition dealRows :: "row list" where
  "dealRows = [alphaDeal, betaDeal, gammaDeal]"

text \<open>
  Cleaned rows with a column \<open>Stage\<close>: a stage \<open>Won\<close>, a stage \<open>0\<close>, an empty stage
  with a name, a stage \<^verbatim>\<open>null\<close> without a name, and \<open>Won\<close> again.
\<close>

definition wonRow :: row where
  "wonRow = [(js ''_id'', JStr (js ''1'')), (js ''_name'', JStr (js ''Acme'')),
             (js ''Stage'', JStr (js ''Won''))]"

definition zeroRow :: row where
  "zeroRow = [(js ''_id'', JStr (js ''2'')), (js ''_name'', JStr (js ''Beta'')),
              (js ''Stage'', JStr (js ''0''))]"

definition emptyStageRow :: row where
  "emptyStageRow = [(js ''_id'', JStr (js ''3'')), (js ''_name'', JStr (js ''Gamma'')),
                    (js ''Stage'', JStr [])]"

definition namelessRow :: row where
  "namelessRow = [(js ''_id'', JStr (js ''4'')), (js ''_name'', JStr []), (js ''Stage'', JNull)]"

definition wonAgainRow :: row where
  "wonAgainRow = [(js ''_id'', JStr (js ''5'')), (js ''_name'', JNull),
                  (js ''Stage'', JStr (js ''Won''))]"

definition stageRows :: "row list" where
  "stageRows = [wonRow, zeroRow, emptyStageRow, namelessRow, wonAgainRow]"

section \<open>Invariants used in the proofs\<close>

text \<open>
  In a row built by \<open>buildRow\<close>, no value outside the identity keys is the empty
  string: \<open>cleanValue\<close> turns an empty text into \<^verbatim>\<open>null\<close>.
\<close>

definition rowClean :: "row \<Rightarrow> bool" where
  "rowClean r = list_all (\<lambda>(k, v). startsWith k (js ''_'') \<or> v \<noteq> JStr []) r"

text \<open>
  The finite values of binary64 are multiples of \<open>pow2 (- 1074)\<close>; the finite Numbers
  that the arithmetic produces are of this kind.
\<close>

definition binary64 :: "rat \<Rightarrow> bool" where
  "binary64 r = (of_int \<lfloor>r / pow2 (- 1074)\<rfloor> = r / pow2 (- 1074))"

fun isNumber :: "jsnum \<Rightarrow> bool" where
  "isNumber NaN = False"
| "isNumber (Fin r) = binary64 r"
| "isNumber x = True"

text \<open>
  The order of the sort values as a rank: the pair of the sign of an infinity and the
  finite value; \<open>descKey\<close> is the key that sorts a row by descending value.
\<close>

fun numRank :: "jsnum \<Rightarrow> int \<times> rat" where
  "numRank NegInf = (- 1, 0)"
| "numRank PosInf = (1, 0)"
| "numRank (Fin r) = (0, r)"
| "numRank NaN = (0, 0)"

definition descKey :: "jstring option \<Rightarrow> row \<Rightarrow> int \<times> rat" where
  "descKey col r = (- fst (numRank (sortValue col r)), - snd (numRank (sortValue col r)))"

section \<open>Evaluation\<close>

text \<open>The definitions that the simplifier unfolds to run the functions on a sample.\<close>

lemmas js_eval = js_def Let_def groupBy_def groupKey_def getProp_def orElse_def protoNames_def
  buildRow_def buildColMap_def resolveTitle_def cleanValue_def trim_def isWhiteSpace_def
  toLowerCase_def lowerUnit_def startsWith_def numericKeywords_def rowVerdict_def
  allEmpty_def isHeader_def nonIdentity_def isMissing_def headerNote_def allKeysOf_def

lemmas row_eval = cleanValueAt_def titleKey_def inheritedString_def blankText_def assignRow_def

section \<open>The rounding of binary64\<close>

lemma pow2_powi: "pow2 e = 2 powi e"
  by (simp add: pow2_def power_int_def inverse_eq_divide power_one_over)

lemma pow2_pos [simp]: "0 < pow2 e"
  by (simp add: pow2_powi zero_less_power_int)

lemma pow2_nonzero [simp]: "pow2 e \<noteq> 0"
  by (rule less_imp_neq [THEN not_sym]) (rule pow2_pos)

lemma pow2_nonneg [simp]: "0 \<le> pow2 e"
  by (rule less_imp_le) (rule pow2_pos)

lemma abs_pow2 [simp]: "\<bar>pow2 e\<bar> = pow2 e"
  by (rule abs_of_pos) (rule pow2_pos)

lemma pow2_add: "pow2 (a + b) = pow2 a * pow2 b"
  by (simp add: pow2_powi power_int_add)

lemma pow2_diff: "pow2 (a - b) = pow2 a / pow2 b"
  by (simp add: pow2_powi power_int_diff)

lemma pow2_nat: "pow2 (int n) = 2 ^ n"
  by (simp add: pow2_def)

lemma pow2_0 [simp]: "pow2 0 = 1"
  by (simp add: pow2_def)

lemma pow2_mono: "a \<le> b \<Longrightarrow> pow2 a \<le> pow2 b"
  by (simp add: pow2_powi power_int_increasing)

lemma pow2_strict_mono: "a < b \<Longrightarrow> pow2 a < pow2 b"
  by (simp add: pow2_powi power_int_strict_increasing)

lemma pow2_less_iff: "pow2 a < pow2 b \<longleftrightarrow> a < b"
  using pow2_strict_mono [of a b] pow2_mono [of b a] by (cases "a < b") auto

lemma pow2_le_iff: "pow2 a \<le> pow2 b \<longleftrightarrow> a \<le> b"
  using pow2_strict_mono [of b a] pow2_mono [of a b] by (cases "a \<le> b") auto

lemma ilog2_bounds:
  assumes "0 < q"
  shows "pow2 (ilog2 q) \<le> q \<and> q < pow2 (ilog2 q + 1)"
proof -
  obtain p d where pd: "quotient_of q = (p, d)" by (cases "quotient_of q")
  have d: "0 < d" by (rule quotient_of_denom_pos [OF pd])
  have q: "q = of_int p / of_int d" by (rule quotient_of_div [OF pd])
  have p: "0 < p" using assms q d by (simp add: zero_less_divide_iff)
  let ?bp = "bitlen p" and ?bd = "bitlen d"
  let ?k = "?bp - ?bd"
  have bp: "1 \<le> ?bp" using p bitlen_nonneg [of p] bitlen_eq_zero_iff [of p] by linarith
  have bd: "1 \<le> ?bd" using d bitlen_nonneg [of d] bitlen_eq_zero_iff [of d] by linarith
  have pw: "pow2 j = 2 ^ nat j" if "0 \<le> j" for j
    using that by (simp add: pow2_def)
  from bitlen_bounds [OF p] have "2 ^ nat (?bp - 1) \<le> p" and "p < 2 ^ nat ?bp" by auto
  then have "rat_of_int (2 ^ nat (?bp - 1)) \<le> of_int p" and "rat_of_int p < of_int (2 ^ nat ?bp)"
    by (simp_all only: of_int_le_iff of_int_less_iff)
  then have p1: "pow2 (?bp - 1) \<le> of_int p" and p2: "of_int p < pow2 ?bp"
    using bp by (simp_all add: pw)
  from bitlen_bounds [OF d] have "2 ^ nat (?bd - 1) \<le> d" and "d < 2 ^ nat ?bd" by auto
  then have "rat_of_int (2 ^ nat (?bd - 1)) \<le> of_int d" and "rat_of_int d < of_int (2 ^ nat ?bd)"
    by (simp_all only: of_int_le_iff of_int_less_iff)
  then have d1: "pow2 (?bd - 1) \<le> of_int d" and d2: "of_int d < pow2 ?bd"
    using bd by (simp_all add: pw)
  have dpos: "(0::rat) < of_int d" using d by simp
  have "pow2 (?k - 1) * of_int d < pow2 (?k - 1) * pow2 ?bd"
    using d2 by (simp add: mult_strict_left_mono)
  also have "\<dots> = pow2 (?bp - 1)" by (simp flip: pow2_add)
  also have "\<dots> \<le> of_int p" by (rule p1)
  finally have lower: "pow2 (?k - 1) < q" using dpos by (simp add: q pos_less_divide_eq)
  have "of_int p < pow2 ?bp" by (rule p2)
  also have "\<dots> = pow2 (?k + 1) * pow2 (?bd - 1)" by (simp flip: pow2_add)
  also have "\<dots> \<le> pow2 (?k + 1) * of_int d" using d1 by (simp add: mult_left_mono)
  finally have upper: "q < pow2 (?k + 1)" using dpos by (simp add: q pos_divide_less_eq)
  have il: "ilog2 q = (if pow2 ?k \<le> q then ?k else ?k - 1)"
    by (simp add: ilog2_def pd Let_def)
  show ?thesis
  proof (cases "pow2 ?k \<le> q")
    case True
    with il upper show ?thesis by simp
  next
    case False
    with il lower show ?thesis by simp
  qed
qed

lemma ilog2_unique:
  assumes "pow2 k \<le> q" and "q < pow2 (k + 1)"
  shows "ilog2 q = k"
proof -
  have q: "0 < q" using assms(1) pow2_pos [of k] by linarith
  from ilog2_bounds [OF q] have b: "pow2 (ilog2 q) \<le> q" "q < pow2 (ilog2 q + 1)" by auto
  have "pow2 k < pow2 (ilog2 q + 1)" using assms(1) b(2) by linarith
  then have 1: "k < ilog2 q + 1" by (simp add: pow2_less_iff)
  have "pow2 (ilog2 q) < pow2 (k + 1)" using assms(2) b(1) by linarith
  then have 2: "ilog2 q < k + 1" by (simp add: pow2_less_iff)
  from 1 2 show ?thesis by linarith
qed

lemma roundHalfEven_of_int [simp]: "roundHalfEven (of_int n) = n"
  by (simp add: roundHalfEven_def)

lemma roundHalfEven_error: "\<bar>of_int (roundHalfEven x) - x\<bar> \<le> 1 / 2"
proof -
  have "of_int \<lfloor>x\<rfloor> \<le> x" "x < of_int \<lfloor>x\<rfloor> + 1" by linarith+
  then show ?thesis by (auto simp: roundHalfEven_def Let_def)
qed


lemma roundDouble_nonzero:
  assumes "q \<noteq> 0"
  shows "roundDouble q =
     (let e = max (ilog2 \<bar>q\<bar> - 52) (- 1074); n = roundHalfEven (q / pow2 e)
      in if 971 < e \<or> (e = 971 \<and> 9007199254740992 \<le> \<bar>n\<bar>)
         then (if 0 < q then PosInf else NegInf)
         else Fin (of_int n * pow2 e))"
  using assms by (simp add: roundDouble_def)

lemma roundDouble_exact:
  assumes n: "\<bar>n\<bar> < 9007199254740992" and e1: "- 1074 \<le> e" and e2: "e \<le> 971"
  shows "roundDouble (of_int n * pow2 e) = Fin (of_int n * pow2 e)"
proof (cases "n = 0")
  case True
  then show ?thesis by (simp add: roundDouble_def)
next
  case False
  define q where "q = rat_of_int n * pow2 e"
  have q0: "q \<noteq> 0" using False by (simp add: q_def)
  have aq: "\<bar>q\<bar> = of_int \<bar>n\<bar> * pow2 e" by (simp add: q_def abs_mult)
  have qpos: "0 < \<bar>q\<bar>" using q0 by simp
  define k where "k = ilog2 \<bar>q\<bar>"
  define e' where "e' = max (k - 52) (- 1074)"
  from ilog2_bounds [OF qpos] have kb: "pow2 k \<le> \<bar>q\<bar>" by (simp add: k_def)
  have "rat_of_int \<bar>n\<bar> < of_int 9007199254740992" using n by (simp only: of_int_less_iff)
  then have "rat_of_int \<bar>n\<bar> < 2 ^ 53" by simp
  then have "rat_of_int \<bar>n\<bar> < pow2 53" by (simp add: pow2_def)
  then have "rat_of_int \<bar>n\<bar> * pow2 e < pow2 53 * pow2 e"
    by (rule mult_strict_right_mono) simp
  then have "\<bar>q\<bar> < pow2 (53 + e)" by (simp only: aq pow2_add)
  with kb have "pow2 k < pow2 (53 + e)" by linarith
  then have "k < 53 + e" by (simp only: pow2_less_iff)
  then have le: "e' \<le> e" using e1 by (simp add: e'_def)
  define j where "j = nat (e - e')"
  have ej: "e = e' + int j" using le by (simp add: j_def)
  have pe: "pow2 e = pow2 e' * 2 ^ j" by (subst ej) (simp only: pow2_add pow2_nat)
  have "q / pow2 e' = rat_of_int n * (pow2 e' * 2 ^ j) / pow2 e'" by (simp only: q_def pe)
  also have "\<dots> = rat_of_int n * 2 ^ j" by simp
  also have "\<dots> = rat_of_int (n * 2 ^ j)" by simp
  finally have div: "q / pow2 e' = rat_of_int (n * 2 ^ j)" .
  have rh: "roundHalfEven (q / pow2 e') = n * 2 ^ j" by (simp only: div roundHalfEven_of_int)
  have "rat_of_int (n * 2 ^ j) * pow2 e' = rat_of_int n * (pow2 e' * 2 ^ j)" by simp
  then have bk: "rat_of_int (n * 2 ^ j) * pow2 e' = q" by (simp only: q_def pe)
  have noov: "\<not> (971 < e' \<or> (e' = 971 \<and> 9007199254740992 \<le> \<bar>n * 2 ^ j\<bar>))"
  proof -
    have "e' \<le> 971" using le e2 by linarith
    moreover have "\<bar>n * 2 ^ j\<bar> < 9007199254740992" if "e' = 971"
    proof -
      from that le e2 have "e = e'" by linarith
      then have "j = 0" by (simp add: j_def)
      with n show ?thesis by simp
    qed
    ultimately show ?thesis by (metis less_le_not_le)
  qed
  have "roundDouble q = Fin q"
    by (simp only: roundDouble_nonzero [OF q0] Let_def k_def [symmetric] e'_def [symmetric]
        rh noov if_False bk)
  then show ?thesis by (simp only: q_def)
qed

lemma roundDouble_of_int:
  "\<bar>n\<bar> < 9007199254740992 \<Longrightarrow> roundDouble (of_int n) = Fin (of_int n)"
  using roundDouble_exact [of n 0] by simp

lemma pow2_53: "pow2 53 = 9007199254740992"
  by (simp add: pow2_def)

lemma roundDouble_error:
  assumes "roundDouble q = Fin r"
  shows "\<bar>r - q\<bar> \<le> \<bar>q\<bar> / 9007199254740992 + pow2 (- 1075)"
proof (cases "q = 0")
  case True
  with assms show ?thesis by (simp add: roundDouble_def)
next
  case False
  have qpos: "0 < \<bar>q\<bar>" using False by simp
  define k where "k = ilog2 \<bar>q\<bar>"
  define e where "e = max (k - 52) (- 1074)"
  define n where "n = roundHalfEven (q / pow2 e)"
  from assms have r: "r = of_int n * pow2 e"
    by (simp only: roundDouble_nonzero [OF False] Let_def k_def [symmetric] e_def [symmetric]
        n_def [symmetric] split: if_splits) simp_all
  have "\<bar>of_int n - q / pow2 e\<bar> \<le> 1 / 2" unfolding n_def by (rule roundHalfEven_error)
  then have "\<bar>of_int n - q / pow2 e\<bar> * pow2 e \<le> 1 / 2 * pow2 e"
    by (rule mult_right_mono) simp
  moreover have "\<bar>of_int n - q / pow2 e\<bar> * pow2 e = \<bar>r - q\<bar>"
  proof -
    have "(of_int n - q / pow2 e) * pow2 e = of_int n * pow2 e - q"
      by (simp add: left_diff_distrib)
    then have "\<bar>(of_int n - q / pow2 e) * pow2 e\<bar> = \<bar>r - q\<bar>" by (simp only: r)
    then show ?thesis by (simp only: abs_mult abs_pow2)
  qed
  ultimately have err: "\<bar>r - q\<bar> \<le> pow2 e / 2" by simp
  have "pow2 e / 2 \<le> \<bar>q\<bar> / 9007199254740992 + pow2 (- 1075)"
  proof (cases "- 1074 \<le> k - 52")
    case True
    then have e: "e = k - 52" by (simp add: e_def)
    from ilog2_bounds [OF qpos] have kq: "pow2 k \<le> \<bar>q\<bar>" by (simp add: k_def)
    have "pow2 k = pow2 (k - 53) * pow2 53" by (simp flip: pow2_add)
    then have k53: "pow2 (k - 53) = pow2 k / 9007199254740992" by (simp add: pow2_53)
    have "pow2 (k - 52) = pow2 (k - 53) * pow2 1" by (simp flip: pow2_add)
    then have "pow2 (k - 52) / 2 = pow2 (k - 53)" by (simp add: pow2_def [of 1])
    with k53 have "pow2 e / 2 = pow2 k / 9007199254740992" by (simp only: e)
    also have "\<dots> \<le> \<bar>q\<bar> / 9007199254740992" using kq by (simp add: divide_right_mono)
    finally have "pow2 e / 2 \<le> \<bar>q\<bar> / 9007199254740992" .
    moreover have "0 \<le> pow2 (- 1075)" by simp
    ultimately show ?thesis by linarith
  next
    case False
    then have e: "e = - 1074" by (simp add: e_def)
    have "pow2 (- 1074) = pow2 (- 1075) * pow2 1" by (simp flip: pow2_add)
    then have "pow2 (- 1074) / 2 = pow2 (- 1075)" by (simp add: pow2_def [of 1])
    moreover have "0 \<le> \<bar>q\<bar> / 9007199254740992" by simp
    ultimately show ?thesis by (simp only: e)
  qed
  with err show ?thesis by linarith
qed

lemma roundDouble_finite:
  assumes "\<bar>q\<bar> < pow2 1023"
  shows "\<exists>r. roundDouble q = Fin r"
proof (cases "q = 0")
  case True
  then show ?thesis by (simp add: roundDouble_def)
next
  case False
  have qpos: "0 < \<bar>q\<bar>" using False by simp
  from ilog2_bounds [OF qpos] have "pow2 (ilog2 \<bar>q\<bar>) \<le> \<bar>q\<bar>" by simp
  with assms have "pow2 (ilog2 \<bar>q\<bar>) < pow2 1023" by linarith
  then have "ilog2 \<bar>q\<bar> < 1023" by (simp add: pow2_less_iff)
  then have "max (ilog2 \<bar>q\<bar> - 52) (- 1074) < 971" by simp
  then have "\<not> (971 < max (ilog2 \<bar>q\<bar> - 52) (- 1074) \<or>
       (max (ilog2 \<bar>q\<bar> - 52) (- 1074) = 971 \<and>
        9007199254740992 \<le> \<bar>roundHalfEven (q / pow2 (max (ilog2 \<bar>q\<bar> - 52) (- 1074)))\<bar>))"
    by linarith
  then show ?thesis by (simp only: roundDouble_nonzero [OF False] Let_def if_False) blast
qed

subsection \<open>Evaluation of numbers\<close>

lemma roundDouble_numeral:
  "numeral w < (9007199254740992::int) \<Longrightarrow> roundDouble (numeral w) = Fin (numeral w)"
  using roundDouble_of_int [of "numeral w"] by simp

lemma floor_rat_numeral_div [simp]:
  "\<lfloor>(numeral a :: rat) / numeral b\<rfloor> = numeral a div numeral b"
  using floor_divide_of_int_eq [of "numeral a" "numeral b", where ?'a = rat] by simp

lemma floor_rat_one_div [simp]: "\<lfloor>(1 :: rat) / numeral b\<rfloor> = 1 div numeral b"
  using floor_divide_of_int_eq [of 1 "numeral b", where ?'a = rat] by simp

lemma floor_rat_neg_numeral_div [simp]:
  "\<lfloor>- (numeral a :: rat) / numeral b\<rfloor> = - numeral a div numeral b"
  using floor_divide_of_int_eq [of "- numeral a" "numeral b", where ?'a = rat] by simp

lemma replicate_numeral_unfold:
  "replicate (numeral k) x = x # replicate (pred_numeral k) x"
  by (simp add: numeral_eq_Suc)

lemma roundDouble_one: "roundDouble 1 = Fin 1"
  using roundDouble_of_int [of 1] by simp

lemma decimalOf_numeral:
  "decimalOf (numeral w) =
     (if numeral w < (10::nat) then [48 + numeral w]
      else decimalOf (numeral w div 10) @ [48 + numeral w mod 10])"
  by (rule decimalOf.simps)

lemma decimalOf_0: "decimalOf 0 = [48]"
  by (simp add: decimalOf.simps)

lemma decimalOf_1: "decimalOf 1 = [49]"
  by (simp add: decimalOf.simps)

lemma decimalOf_Suc_0: "decimalOf (Suc 0) = [49]"
  by (simp add: decimalOf.simps)

lemmas num_eval = numToString_def posToString_def ilog10_def pow10_def digitCands_def closer_def
  decimalOf_numeral decimalOf_0 decimalOf_1 decimalOf_Suc_0 numOfNat_def roundDouble_numeral
  roundDouble_one Let_def replicate_numeral_unfold

lemma ilog2_1: "ilog2 1 = 0"
  by (rule ilog2_unique) (simp_all add: pow2_def)

lemma numToString_1: "numToString (numOfNat 1) = js ''1''"
  by (simp add: num_eval ilog2_1 js_def)

lemma ilog2_125000: "ilog2 125000 = 16"
  by (rule ilog2_unique) (simp_all add: pow2_def)

lemma numToString_125000: "numToString (Fin 125000) = js ''125000''"
  by (simp add: num_eval ilog2_125000 js_def)


section \<open>Property lists\<close>

lemma map_fst_setProp:
  "map fst (setProp g k v) = (if k \<in> set (map fst g) then map fst g else map fst g @ [k])"
proof (induction g)
  case Nil
  show ?case by simp
next
  case (Cons p ps)
  obtain k' v' where p: "p = (k', v')" by (cases p)
  show ?case using Cons by (cases "k' = k") (simp_all add: p)
qed

lemma keys_setProp: "set (map fst (setProp g k v)) = insert k (set (map fst g))"
  by (auto simp: map_fst_setProp)

lemma distinct_setProp: "distinct (map fst g) \<Longrightarrow> distinct (map fst (setProp g k v))"
  by (simp add: map_fst_setProp)

lemma map_of_setProp: "map_of (setProp g k v) = (map_of g)(k \<mapsto> v)"
proof (induction g)
  case Nil
  show ?case by simp
next
  case (Cons p ps)
  obtain k' v' where p: "p = (k', v')" by (cases p)
  show ?case using Cons by (cases "k' = k") (auto simp: p)
qed

lemma set_setProp: "p \<in> set (setProp g k v) \<Longrightarrow> p = (k, v) \<or> p \<in> set g"
proof (induction g)
  case Nil
  then show ?case by simp
next
  case (Cons q qs)
  obtain k' v' where q: "q = (k', v')" by (cases q)
  show ?case using Cons by (cases "k' = k") (auto simp: q)
qed

section \<open>Row filtering and the row counts\<close>

lemma filterRows_eq:
  "filterRows rs n iss =
     (filter (\<lambda>r. rowVerdict r = Keep) rs,
      n + length (filter (\<lambda>r. rowVerdict r \<noteq> Keep) rs),
      iss @ map headerNote (filter (\<lambda>r. rowVerdict r = DropHeader) rs))"
proof (induction rs arbitrary: n iss)
  case Nil
  show ?case by simp
next
  case (Cons r rs)
  show ?case by (cases "rowVerdict r") (simp_all add: Cons.IH)
qed

lemma buildRows_Inr:
  "buildRows cm its = Inr rows \<Longrightarrow> list_all2 (\<lambda>it r. buildRow cm it = Inr r) its rows"
proof (induction its arbitrary: rows)
  case Nil
  then show ?case by simp
next
  case (Cons it its)
  then show ?case by (auto split: sum.splits)
qed

lemma buildRows_length: "buildRows cm its = Inr rows \<Longrightarrow> length rows = length its"
  by (drule buildRows_Inr) (simp add: list_all2_lengthD)

lemma buildRows_member:
  assumes "buildRows cm its = Inr rows" and "r \<in> set rows"
  shows "\<exists>it \<in> set its. buildRow cm it = Inr r"
proof -
  from assms(2) obtain n where n: "n < length rows" "rows ! n = r"
    by (auto simp: in_set_conv_nth)
  from buildRows_Inr [OF assms(1)] n have "buildRow cm (its ! n) = Inr r" "n < length its"
    by (auto simp: list_all2_conv_all_nth)
  then show ?thesis by (metis nth_mem)
qed

lemma cleanBoardData_Inr:
  assumes "cleanBoardData bd = Inr res"
  shows "\<exists>cols its rows. bd_columns bd = Some cols \<and> bd_items bd = Some its \<and>
           buildRows (buildColMap cols) its = Inr rows \<and>
           boardName res = bd_name bd \<and>
           columns res = filter (\<lambda>t. t \<noteq> js ''Name'') (map c_title cols) \<and>
           data res = filter (\<lambda>r. rowVerdict r = Keep) rows \<and>
           totalRows (stats res) = length its \<and>
           cleanedRows (stats res) = length (data res) \<and>
           removedRows (stats res) = length (filter (\<lambda>r. rowVerdict r \<noteq> Keep) rows) \<and>
           missingFields (stats res) = countMissing (data res) \<and>
           totalFields (stats res) = length (data res) * length (buildColMap cols) \<and>
           completeness (stats res) =
             completenessOf (missingFields (stats res)) (totalFields (stats res)) \<and>
           qualityIssues res =
             map headerNote (filter (\<lambda>r. rowVerdict r = DropHeader) rows) @
             (if 0 < removedRows (stats res) then [removedNote (removedRows (stats res))] else []) @
             (if 0 < missingFields (stats res)
              then [missingNote (missingFields (stats res)) (totalFields (stats res))] else [])"
proof -
  from assms obtain cols where c: "bd_columns bd = Some cols"
    by (cases "bd_columns bd") (simp_all add: cleanBoardData_def)
  from assms c obtain its where i: "bd_items bd = Some its"
    by (cases "bd_items bd") (simp_all add: cleanBoardData_def)
  from assms c i obtain rows where r: "buildRows (buildColMap cols) its = Inr rows"
    by (cases "buildRows (buildColMap cols) its") (simp_all add: cleanBoardData_def)
  from assms have "res = projr (cleanBoardData bd)" by simp
  then have "boardName res = bd_name bd \<and>
           columns res = filter (\<lambda>t. t \<noteq> js ''Name'') (map c_title cols) \<and>
           data res = filter (\<lambda>r. rowVerdict r = Keep) rows \<and>
           totalRows (stats res) = length its \<and>
           cleanedRows (stats res) = length (data res) \<and>
           removedRows (stats res) = length (filter (\<lambda>r. rowVerdict r \<noteq> Keep) rows) \<and>
           missingFields (stats res) = countMissing (data res) \<and>
           totalFields (stats res) = length (data res) * length (buildColMap cols) \<and>
           completeness (stats res) =
             completenessOf (missingFields (stats res)) (totalFields (stats res)) \<and>
           qualityIssues res =
             map headerNote (filter (\<lambda>r. rowVerdict r = DropHeader) rows) @
             (if 0 < removedRows (stats res) then [removedNote (removedRows (stats res))] else []) @
             (if 0 < missingFields (stats res)
              then [missingNote (missingFields (stats res)) (totalFields (stats res))] else [])"
    by (simp add: cleanBoardData_def c i r filterRows_eq Let_def)
  with c i r show ?thesis by blast
qed

lemma cleanBoardData_returns:
  assumes "bd_columns bd = Some cols" and "bd_items bd = Some its"
    and "buildRows (buildColMap cols) its = Inr rows"
  shows "\<exists>res. cleanBoardData bd = Inr res"
  using assms by (simp add: cleanBoardData_def Let_def split: prod.splits)

lemma cleanBoardData_throws:
  assumes "bd_columns bd = Some cols" and "bd_items bd = Some its"
    and "buildRows (buildColMap cols) its = Inl e"
  shows "cleanBoardData bd = Inl e"
  using assms by (simp add: cleanBoardData_def Let_def)

lemma length_filter_split:
  "length (filter P xs) + length (filter (\<lambda>x. \<not> P x) xs) = length xs"
  by (induction xs) auto

lemma mixedBoard_rows:
  "buildRows (buildColMap mixedColumns) mixedItems =
     Inr [[(js ''_id'', JStr (js ''1'')), (js ''_name'', JStr (js ''Header'')),
           (js ''Status'', JStr (js ''Status'')), (js ''Sector'', JStr (js ''Sector''))],
          [(js ''_id'', JStr (js ''2'')), (js ''_name'', JStr []),
           (js ''Status'', JNull), (js ''Sector'', JNull)],
          [(js ''_id'', JStr (js ''3'')), (js ''_name'', JStr (js ''Acme'')),
           (js ''Status'', JStr (js ''Open'')), (js ''Sector'', JStr (js ''Mining''))]]"
  by (simp add: mixedColumns_def mixedItems_def js_eval row_eval)

text \<open>
  Claim C2. Whenever \<open>cleanBoardData\<close> returns a board, its statistics satisfy
  \<open>cleanedRows + removedRows = totalRows\<close>, where \<open>totalRows\<close> is the number of raw
  items of the snapshot: every raw row is kept or counted once as removed.
\<close>

theorem cleanBoardData_row_conservation:
  assumes "cleanBoardData bd = Inr res"
  shows "\<exists>its. bd_items bd = Some its \<and>
           totalRows (stats res) = length its \<and>
           cleanedRows (stats res) + removedRows (stats res) = totalRows (stats res)"
proof -
  from cleanBoardData_Inr [OF assms] obtain cols its rows where
    r: "bd_items bd = Some its"
       "buildRows (buildColMap cols) its = Inr rows"
       "data res = filter (\<lambda>r. rowVerdict r = Keep) rows"
       "totalRows (stats res) = length its"
       "cleanedRows (stats res) = length (data res)"
       "removedRows (stats res) = length (filter (\<lambda>r. rowVerdict r \<noteq> Keep) rows)"
    by blast
  have "cleanedRows (stats res) + removedRows (stats res) = length rows"
    using r(3,5,6) length_filter_split [of "\<lambda>r. rowVerdict r = Keep" rows] by simp
  also have "\<dots> = length its" using r(2) by (rule buildRows_length)
  finally show ?thesis using r(1,4) by simp
qed

theorem cleanBoardData_row_conservation_witness:
  "\<exists>res. cleanBoardData mixedBoard = Inr res \<and> totalRows (stats res) = 3 \<and>
         cleanedRows (stats res) + removedRows (stats res) = totalRows (stats res)"
proof -
  have c: "bd_columns mixedBoard = Some mixedColumns" by (simp add: mixedBoard_def)
  have i: "bd_items mixedBoard = Some mixedItems" by (simp add: mixedBoard_def)
  have l: "length mixedItems = 3" by (simp add: mixedItems_def)
  from cleanBoardData_returns [OF c i mixedBoard_rows] obtain res where
    r: "cleanBoardData mixedBoard = Inr res" ..
  from cleanBoardData_row_conservation [OF r] i have
    "totalRows (stats res) = length mixedItems"
    "cleanedRows (stats res) + removedRows (stats res) = totalRows (stats res)"
    by auto
  with r show ?thesis by (auto simp only: l)
qed

section \<open>Malformed snapshots\<close>

lemma cleanBoardData_name:
  "cleanBoardData (bd\<lparr>bd_name := nm\<rparr>) =
     (case cleanBoardData bd of Inl e \<Rightarrow> Inl e | Inr res \<Rightarrow> Inr (res\<lparr>boardName := nm\<rparr>))"
  by (simp add: cleanBoardData_def Let_def split: option.splits sum.splits prod.splits)

text \<open>
  Claim C8, as the code has it. \<open>cleanBoardData\<close> validates nothing. A snapshot without
  a column list or without an item list makes it fail with the TypeError of the method
  call on \<^verbatim>\<open>undefined\<close> (\<^verbatim>\<open>columns.forEach\<close> first, \<^verbatim>\<open>items.map\<close> second) and never with
  a result. The board name plays no part in it: giving a snapshot another name, or none,
  changes neither whether a board is returned nor the error, and the board returned is
  the same but for its name, which is the name of the snapshot, \<^verbatim>\<open>undefined\<close> when the
  snapshot has none.
\<close>

theorem cleanBoardData_fails_on_missing_list:
  "(bd_columns bd = None \<longrightarrow> cleanBoardData bd = Inl (TypeError ''forEach'')) \<and>
   (bd_columns bd \<noteq> None \<and> bd_items bd = None \<longrightarrow> cleanBoardData bd = Inl (TypeError ''map'')) \<and>
   (cleanBoardData bd = Inr res \<longrightarrow>
      bd_columns bd \<noteq> None \<and> bd_items bd \<noteq> None \<and> boardName res = bd_name bd \<and>
      cleanBoardData (bd\<lparr>bd_name := JUndefined\<rparr>) = Inr (res\<lparr>boardName := JUndefined\<rparr>)) \<and>
   isl (cleanBoardData (bd\<lparr>bd_name := nm\<rparr>)) = isl (cleanBoardData bd)"
proof -
  have 1: "bd_columns bd = None \<longrightarrow> cleanBoardData bd = Inl (TypeError ''forEach'')"
    by (simp add: cleanBoardData_def)
  have 2: "bd_columns bd \<noteq> None \<and> bd_items bd = None \<longrightarrow>
      cleanBoardData bd = Inl (TypeError ''map'')"
    by (auto simp: cleanBoardData_def)
  have 3: "cleanBoardData bd = Inr res \<longrightarrow>
      bd_columns bd \<noteq> None \<and> bd_items bd \<noteq> None \<and> boardName res = bd_name bd \<and>
      cleanBoardData (bd\<lparr>bd_name := JUndefined\<rparr>) = Inr (res\<lparr>boardName := JUndefined\<rparr>)"
  proof
    assume a: "cleanBoardData bd = Inr res"
    from cleanBoardData_Inr [OF a] have
      "bd_columns bd \<noteq> None" "bd_items bd \<noteq> None" "boardName res = bd_name bd" by auto
    moreover have
      "cleanBoardData (bd\<lparr>bd_name := JUndefined\<rparr>) = Inr (res\<lparr>boardName := JUndefined\<rparr>)"
      by (simp add: cleanBoardData_name a)
    ultimately show "bd_columns bd \<noteq> None \<and> bd_items bd \<noteq> None \<and> boardName res = bd_name bd \<and>
      cleanBoardData (bd\<lparr>bd_name := JUndefined\<rparr>) = Inr (res\<lparr>boardName := JUndefined\<rparr>)"
      by simp
  qed
  have 4: "isl (cleanBoardData (bd\<lparr>bd_name := nm\<rparr>)) = isl (cleanBoardData bd)"
    by (simp add: cleanBoardData_name split: sum.splits)
  show ?thesis by (intro conjI 1 2 3 4)
qed

theorem cleanBoardData_fails_on_missing_list_witness:
  "cleanBoardData columnlessBoard = Inl (TypeError ''forEach'') \<and>
   cleanBoardData itemlessBoard = Inl (TypeError ''map'') \<and>
   (\<exists>res. cleanBoardData mixedBoard = Inr res \<and> boardName res = JStr (js ''Deals'') \<and>
          cleanBoardData (mixedBoard\<lparr>bd_name := JUndefined\<rparr>) =
            Inr (res\<lparr>boardName := JUndefined\<rparr>))"
proof -
  have 1: "cleanBoardData columnlessBoard = Inl (TypeError ''forEach'')"
    using cleanBoardData_fails_on_missing_list [of columnlessBoard, THEN conjunct1]
    by (simp add: columnlessBoard_def)
  have 2: "cleanBoardData itemlessBoard = Inl (TypeError ''map'')"
    using cleanBoardData_fails_on_missing_list [of itemlessBoard, THEN conjunct2, THEN conjunct1]
    by (simp add: itemlessBoard_def)
  have c: "bd_columns mixedBoard = Some mixedColumns" by (simp add: mixedBoard_def)
  have i: "bd_items mixedBoard = Some mixedItems" by (simp add: mixedBoard_def)
  from cleanBoardData_returns [OF c i mixedBoard_rows] obtain res where
    r: "cleanBoardData mixedBoard = Inr res" ..
  have n: "bd_name mixedBoard = JStr (js ''Deals'')" by (simp add: mixedBoard_def)
  from cleanBoardData_fails_on_missing_list
      [of mixedBoard res, THEN conjunct2, THEN conjunct2, THEN conjunct1] r
  have "boardName res = bd_name mixedBoard"
    "cleanBoardData (mixedBoard\<lparr>bd_name := JUndefined\<rparr>) = Inr (res\<lparr>boardName := JUndefined\<rparr>)"
    by blast+
  with n have
    "boardName res = JStr (js ''Deals'')"
    "cleanBoardData (mixedBoard\<lparr>bd_name := JUndefined\<rparr>) = Inr (res\<lparr>boardName := JUndefined\<rparr>)"
    by simp_all
  with 1 2 r show ?thesis by blast
qed

text \<open>A snapshot without a board name gives a successful, empty result.\<close>

theorem cleanBoardData_missing_name_counterexample:
  "cleanBoardData namelessBoard =
     Inr \<lparr> boardName = JUndefined, columns = [], data = [],
           stats = \<lparr> totalRows = 0, cleanedRows = 0, removedRows = 0, missingFields = 0,
                     totalFields = 0, completeness = js ''100'' \<rparr>,
           qualityIssues = [] \<rparr>"
  by (simp add: cleanBoardData_def namelessBoard_def buildColMap_def countMissing_def
      completenessOf_def)

text \<open>
  All the ways \<open>cleanBoardData\<close> fails: a list is missing, or an item has a field
  whose title is an inherited member and whose text is not blank. The field of
  \<open>strayBoard\<close> has the id \<open>constructor\<close>, its title is the inherited function, and
  \<^verbatim>\<open>cleanValue\<close> throws.
\<close>

lemma cleanValueAt_throws:
  "isl (cleanValueAt text t) = ((\<exists>n. t = Inherited n) \<and> \<not> blankText text)"
  by (cases t) (simp_all add: cleanValueAt_def)

lemma buildFields_throws:
  "isl (buildFields cm st cvs) =
     list_ex (\<lambda>cv. (\<exists>n. resolveTitle cm (cv_id cv) = Inherited n) \<and> \<not> blankText (cv_text cv)) cvs"
proof -
  define P where
    "P = (\<lambda>cv :: column_value.
            (\<exists>n. resolveTitle cm (cv_id cv) = Inherited n) \<and> \<not> blankText (cv_text cv))"
  have P: "isl (cleanValueAt (cv_text cv) (resolveTitle cm (cv_id cv))) = P cv" for cv
    by (simp add: P_def cleanValueAt_throws)
  have "isl (buildFields cm st cvs) = list_ex P cvs"
  proof (induction cvs arbitrary: st)
    case Nil
    show ?case by simp
  next
    case (Cons cv cvs)
    show ?case
    proof (cases "cleanValueAt (cv_text cv) (resolveTitle cm (cv_id cv))")
      case (Inl e)
      with P [of cv] have "P cv" by simp
      with Inl show ?thesis by (simp add: Let_def)
    next
      case (Inr v)
      with P [of cv] have "\<not> P cv" by simp
      with Inr show ?thesis by (simp add: Let_def Cons.IH)
    qed
  qed
  then show ?thesis unfolding P_def .
qed

lemma buildRows_throws:
  "isl (buildRows cm its) = list_ex (\<lambda>it. isl (buildRow cm it)) its"
proof (induction its)
  case Nil
  show ?case by simp
next
  case (Cons it its)
  then show ?case by (cases "buildRow cm it"; cases "buildRows cm its") simp_all
qed

lemma cleanBoardData_throws_iff:
  "isl (cleanBoardData bd) =
     (case bd_columns bd of
        None \<Rightarrow> True
      | Some cols \<Rightarrow>
          (case bd_items bd of
             None \<Rightarrow> True
           | Some its \<Rightarrow>
               list_ex (\<lambda>it. list_ex (\<lambda>cv.
                   (\<exists>n. resolveTitle (buildColMap cols) (cv_id cv) = Inherited n) \<and>
                   \<not> blankText (cv_text cv)) (column_values it)) its))"
proof (cases "bd_columns bd")
  case None
  then show ?thesis by (simp add: cleanBoardData_def)
next
  case (Some cols)
  show ?thesis
  proof (cases "bd_items bd")
    case None
    with Some show ?thesis by (simp add: cleanBoardData_def)
  next
    case (Some its)
    have "isl (cleanBoardData bd) = isl (buildRows (buildColMap cols) its)"
      using \<open>bd_columns bd = Some cols\<close> Some
      by (cases "buildRows (buildColMap cols) its")
         (simp_all add: cleanBoardData_def Let_def split: prod.splits)
    then show ?thesis
      using \<open>bd_columns bd = Some cols\<close> Some
      by (simp add: buildRows_throws buildRow_def buildFields_throws)
  qed
qed

lemma resolveTitle_Inherited:
  "(resolveTitle cm i = Inherited n) = (n = i \<and> i \<in> set protoNames \<and> map_of cm i = None)"
  by (auto simp: resolveTitle_def split: option.splits)


lemma cleanBoardData_strayBoard:
  "cleanBoardData strayBoard = Inl (TypeError ''toLowerCase'')"
  by (simp add: cleanBoardData_def strayBoard_def strayItems_def statusColumns_def js_eval
      row_eval)

section \<open>The keys of a cleaned row\<close>

lemma startsWith_underscore_ids:
  "startsWith (js ''_id'') (js ''_'')" "startsWith (js ''_name'') (js ''_'')"
  "startsWith (js ''__proto__'') (js ''_'')"
  by (simp_all add: startsWith_def js_def)

lemma allKeysOf_setProp:
  "set (allKeysOf (setProp r k v)) =
     set (allKeysOf r) \<union> (if startsWith k (js ''_'') then {} else {k})"
  using keys_setProp [of r k v] by (auto simp: allKeysOf_def simp del: set_map)

lemma allKeysOf_assignRow:
  "set (allKeysOf (fst (assignRow st k v))) =
     set (allKeysOf (fst st)) \<union> (if startsWith k (js ''_'') then {} else {k})"
proof (cases st)
  case (Pair r removed)
  show ?thesis
  proof (cases "k = js ''__proto__'' \<and> \<not> removed")
    case True
    then show ?thesis by (simp add: Pair assignRow_def startsWith_underscore_ids)
  next
    case False
    then have "assignRow st k v = (setProp r k v, removed)"
      by (auto simp: Pair assignRow_def)
    then show ?thesis by (simp add: Pair allKeysOf_setProp)
  qed
qed

lemma allKeysOf_buildFields:
  "buildFields cm st cvs = Inr r \<Longrightarrow>
   set (allKeysOf r) =
     set (allKeysOf (fst st)) \<union>
     {k \<in> (\<lambda>cv. titleKey (resolveTitle cm (cv_id cv))) ` set cvs. \<not> startsWith k (js ''_'')}"
proof (induction cvs arbitrary: st)
  case Nil
  then show ?case by simp
next
  case (Cons cv cvs)
  let ?t = "resolveTitle cm (cv_id cv)"
  from Cons.prems obtain v where v: "cleanValueAt (cv_text cv) ?t = Inr v"
    by (cases "cleanValueAt (cv_text cv) ?t") (simp_all add: Let_def)
  with Cons.prems have "buildFields cm (assignRow st (titleKey ?t) v) cvs = Inr r"
    by (simp add: Let_def)
  from Cons.IH [OF this] show ?case
    by (auto simp: allKeysOf_assignRow split: if_splits)
qed

lemma allKeysOf_buildRow:
  assumes "buildRow cm it = Inr r"
  shows "set (allKeysOf r) =
     {k \<in> (\<lambda>cv. titleKey (resolveTitle cm (cv_id cv))) ` set (column_values it).
        \<not> startsWith k (js ''_'')}"
  using allKeysOf_buildFields [OF assms [unfolded buildRow_def]]
  by (simp add: allKeysOf_def startsWith_underscore_ids)

lemma buildColMap_snoc:
  "buildColMap (cols @ [c]) =
     (if c_id c = js ''__proto__'' then buildColMap cols
      else setProp (buildColMap cols) (c_id c) (c_title c))"
  by (simp add: buildColMap_def)

lemma keys_buildColMap: "set (map fst (buildColMap cols)) = c_id ` set cols - {js ''__proto__''}"
proof (induction cols rule: rev_induct)
  case Nil
  show ?case by (simp add: buildColMap_def)
next
  case (snoc c cols)
  then show ?case by (auto simp: buildColMap_snoc keys_setProp simp del: set_map)
qed

lemma map_of_buildColMap_distinct:
  "distinct (map c_id cols) \<Longrightarrow> c \<in> set cols \<Longrightarrow> c_id c \<noteq> js ''__proto__'' \<Longrightarrow>
   map_of (buildColMap cols) (c_id c) = Some (c_title c)"
proof (induction cols rule: rev_induct)
  case Nil
  then show ?case by simp
next
  case (snoc c' cols)
  show ?case
  proof (cases "c_id c = c_id c'")
    case True
    from snoc.prems(1) have "c_id c' \<notin> c_id ` set cols" by simp
    with True have "c \<notin> set cols" by (metis imageI)
    with snoc.prems(2) have "c = c'" by simp
    with snoc.prems(3) show ?thesis by (simp add: buildColMap_snoc map_of_setProp)
  next
    case False
    with snoc.prems(2) have "c \<in> set cols" by auto
    moreover from snoc.prems(1) have "distinct (map c_id cols)" by simp
    ultimately have "map_of (buildColMap cols) (c_id c) = Some (c_title c)"
      using snoc.prems(3) by (simp add: snoc.IH)
    with False show ?thesis by (simp add: buildColMap_snoc map_of_setProp)
  qed
qed

lemma distinct_buildColMap: "distinct (map fst (buildColMap cols))"
proof (induction cols rule: rev_induct)
  case Nil
  show ?case by (simp add: buildColMap_def)
next
  case (snoc c cols)
  then show ?case by (simp add: buildColMap_snoc distinct_setProp)
qed

lemma length_buildColMap:
  "length (buildColMap cols) = card (c_id ` set cols - {js ''__proto__''})"
proof -
  have "card (set (map fst (buildColMap cols))) = length (map fst (buildColMap cols))"
    using distinct_buildColMap by (rule distinct_card)
  then show ?thesis by (simp add: keys_buildColMap del: set_map)
qed

lemma sparseBoard_rows:
  "buildRows (buildColMap sparseColumns) sparseItems =
     Inr [[(js ''_id'', JStr (js ''1'')), (js ''_name'', JStr (js ''Acme'')),
           (js ''Status'', JStr (js ''Open''))]]"
  by (simp add: sparseColumns_def sparseItems_def js_eval row_eval)




section \<open>Header rows and empty rows\<close>

lemma decimalOf_nonempty: "decimalOf n \<noteq> []"
  by (subst decimalOf.simps) simp

lemma posToString_nonempty: "posToString x \<noteq> []"
  by (simp add: posToString_def Let_def decimalOf_nonempty split: prod.splits)

lemma numToString_nonempty: "numToString v \<noteq> []"
  by (cases v) (simp_all add: numToString_def js_def posToString_nonempty)

lemma normalizeNumber_not_empty: "normalizeNumber s \<noteq> JStr []"
  by (simp add: normalizeNumber_def Let_def numToString_nonempty)

lemma isoPrefix_nonempty: "isoPrefix s \<Longrightarrow> s \<noteq> []"
  by (auto simp: isoPrefix_def)

lemma normalizeDate_not_empty: "normalizeDate s \<noteq> JStr []"
  by (auto simp: normalizeDate_def js_def dest: isoPrefix_nonempty split: option.splits)

lemma cleanValue_not_empty: "cleanValue t c \<noteq> JStr []"
  by (cases t)
     (simp_all add: cleanValue_def Let_def normalizeDate_not_empty normalizeNumber_not_empty)

lemma cleanValueAt_not_empty: "cleanValueAt t c = Inr v \<Longrightarrow> v \<noteq> JStr []"
  by (cases c) (auto simp: cleanValueAt_def cleanValue_not_empty split: if_splits)

lemma rowClean_setProp:
  "rowClean r \<Longrightarrow> v \<noteq> JStr [] \<Longrightarrow> rowClean (setProp r k v)"
  unfolding rowClean_def list_all_iff using set_setProp [of _ r k v] by blast

lemma rowClean_assignRow:
  "rowClean (fst st) \<Longrightarrow> v \<noteq> JStr [] \<Longrightarrow> rowClean (fst (assignRow st k v))"
  by (cases st) (simp add: assignRow_def rowClean_setProp)

lemma rowClean_buildFields:
  "rowClean (fst st) \<Longrightarrow> buildFields cm st cvs = Inr r \<Longrightarrow> rowClean r"
proof (induction cvs arbitrary: st)
  case Nil
  then show ?case by simp
next
  case (Cons cv cvs)
  let ?t = "resolveTitle cm (cv_id cv)"
  from Cons.prems(2) obtain v where v: "cleanValueAt (cv_text cv) ?t = Inr v"
    by (cases "cleanValueAt (cv_text cv) ?t") (simp_all add: Let_def)
  with Cons.prems(2) have b: "buildFields cm (assignRow st (titleKey ?t) v) cvs = Inr r"
    by (simp add: Let_def)
  from v have "v \<noteq> JStr []" by (rule cleanValueAt_not_empty)
  with Cons.prems(1) have "rowClean (fst (assignRow st (titleKey ?t) v))"
    by (rule rowClean_assignRow)
  from Cons.IH [OF this b] show ?case .
qed

lemma rowClean_buildRow:
  assumes "buildRow cm it = Inr r"
  shows "rowClean r"
proof -
  have "rowClean (fst ([(js ''_id'', item_id it), (js ''_name'', item_name it)], False))"
    by (simp add: rowClean_def startsWith_underscore_ids)
  then show ?thesis using assms [unfolded buildRow_def] by (rule rowClean_buildFields)
qed

lemma header_not_allEmpty:
  assumes "rowClean r" and "isHeader r"
  shows "\<not> allEmpty r"
proof -
  from assms(2) obtain k v where kv: "(k, v) \<in> set (nonIdentity r)" and v: "v = JStr k"
    by (auto simp: isHeader_def list_ex_iff)
  from kv have in_r: "(k, v) \<in> set r" and nid: "\<not> startsWith k (js ''_'')"
    by (auto simp: nonIdentity_def)
  from assms(1) in_r nid have "v \<noteq> JStr []" by (auto simp: rowClean_def list_all_iff)
  with v have "\<not> isMissing v" by (simp add: isMissing_def)
  with kv show ?thesis by (auto simp: allEmpty_def list_all_iff)
qed

lemma rowVerdict_buildRow:
  "buildRow cm it = Inr r \<Longrightarrow> (rowVerdict r = DropHeader) = isHeader r"
  using header_not_allEmpty [OF rowClean_buildRow, of cm it r]
  by (auto simp: rowVerdict_def)

lemma rowVerdict_DropEmpty:
  "(rowVerdict r = DropEmpty) = (\<not> truthy (getProp r (js ''_name'')) \<and> allEmpty r)"
  by (simp add: rowVerdict_def)

lemma headerNote_text:
  "headerNote r = js ''Removed embedded header row (item: '' @ [34] @
     (if truthy (getProp r (js ''_name'')) then toStr (getProp r (js ''_name'')) else js ''empty'') @
     [34] @ js '')''"
  by (simp add: headerNote_def orElse_def)

lemma statusBoard_rows:
  "buildRows (buildColMap statusColumns) statusItems =
     Inr [[(js ''_id'', JStr (js ''1'')), (js ''_name'', JStr (js ''Header'')),
           (js ''Status'', JStr (js ''Status''))]]"
  by (simp add: statusColumns_def statusItems_def js_eval row_eval)

text \<open>
  Claim C6. The filter tests the empty-row rule first: a row without a name whose values
  are all missing is dropped as empty, whatever else holds. A row built from an item is
  dropped as a header row exactly when one of its values outside the identity keys is a
  string equal to its own key, the title of its column. Whenever \<open>cleanBoardData\<close>
  returns a board, the board keeps the other rows; \<open>removedRows\<close> counts the rows of
  the two kinds; the issues start with one note per header row, in the order of the
  rows, which names the row, or says \<open>empty\<close> when the row has no name; the notes on the
  totals follow.
\<close>

theorem header_rows_dropped:
  assumes res: "cleanBoardData bd = Inr res"
  shows "\<exists>cols its rows. bd_columns bd = Some cols \<and> bd_items bd = Some its \<and>
     buildRows (buildColMap cols) its = Inr rows \<and>
     data res = filter (\<lambda>r. rowVerdict r = Keep) rows \<and>
     removedRows (stats res) =
        length (filter (\<lambda>r. rowVerdict r = DropEmpty) rows) + length (filter isHeader rows) \<and>
     qualityIssues res =
        map headerNote (filter isHeader rows) @
        (if 0 < removedRows (stats res) then [removedNote (removedRows (stats res))] else []) @
        (if 0 < missingFields (stats res)
         then [missingNote (missingFields (stats res)) (totalFields (stats res))] else []) \<and>
     (\<forall>r \<in> set rows.
        (rowVerdict r = DropHeader) = isHeader r \<and>
        (rowVerdict r = DropEmpty) = (\<not> truthy (getProp r (js ''_name'')) \<and> allEmpty r) \<and>
        headerNote r = js ''Removed embedded header row (item: '' @ [34] @
          (if truthy (getProp r (js ''_name'')) then toStr (getProp r (js ''_name''))
           else js ''empty'') @ [34] @ js '')'') \<and>
     (\<forall>r. \<not> truthy (getProp r (js ''_name'')) \<and> allEmpty r \<longrightarrow> rowVerdict r = DropEmpty)"
proof -
  from cleanBoardData_Inr [OF res] obtain cols its rows where
    c: "bd_columns bd = Some cols" and i: "bd_items bd = Some its"
    and rows: "buildRows (buildColMap cols) its = Inr rows"
    and d: "data res = filter (\<lambda>r. rowVerdict r = Keep) rows"
    and rm: "removedRows (stats res) = length (filter (\<lambda>r. rowVerdict r \<noteq> Keep) rows)"
    and q: "qualityIssues res =
             map headerNote (filter (\<lambda>r. rowVerdict r = DropHeader) rows) @
             (if 0 < removedRows (stats res) then [removedNote (removedRows (stats res))] else []) @
             (if 0 < missingFields (stats res)
              then [missingNote (missingFields (stats res)) (totalFields (stats res))] else [])"
    by blast
  have built: "(rowVerdict r = DropHeader) = isHeader r" if "r \<in> set rows" for r
  proof -
    from buildRows_member [OF rows that] obtain it where "buildRow (buildColMap cols) it = Inr r"
      by blast
    then show ?thesis by (rule rowVerdict_buildRow)
  qed
  have hd: "filter (\<lambda>r. rowVerdict r = DropHeader) rows = filter isHeader rows"
    by (rule filter_cong) (simp_all add: built)
  have split: "length (filter (\<lambda>r. rowVerdict r \<noteq> Keep) xs) =
      length (filter (\<lambda>r. rowVerdict r = DropEmpty) xs) +
      length (filter (\<lambda>r. rowVerdict r = DropHeader) xs)" for xs
  proof (induction xs)
    case Nil
    show ?case by simp
  next
    case (Cons x xs)
    then show ?case by (cases "rowVerdict x") simp_all
  qed
  have rm': "removedRows (stats res) =
      length (filter (\<lambda>r. rowVerdict r = DropEmpty) rows) + length (filter isHeader rows)"
    by (simp only: rm split hd)
  have q': "qualityIssues res =
        map headerNote (filter isHeader rows) @
        (if 0 < removedRows (stats res) then [removedNote (removedRows (stats res))] else []) @
        (if 0 < missingFields (stats res)
         then [missingNote (missingFields (stats res)) (totalFields (stats res))] else [])"
    using q by (simp only: hd)
  have per: "\<forall>r \<in> set rows.
        (rowVerdict r = DropHeader) = isHeader r \<and>
        (rowVerdict r = DropEmpty) = (\<not> truthy (getProp r (js ''_name'')) \<and> allEmpty r) \<and>
        headerNote r = js ''Removed embedded header row (item: '' @ [34] @
          (if truthy (getProp r (js ''_name'')) then toStr (getProp r (js ''_name''))
           else js ''empty'') @ [34] @ js '')''"
    using rowVerdict_DropEmpty headerNote_text built by blast
  have first: "\<forall>r. \<not> truthy (getProp r (js ''_name'')) \<and> allEmpty r \<longrightarrow> rowVerdict r = DropEmpty"
    by (simp add: rowVerdict_def)
  from c i rows d rm' q' per first show ?thesis by blast
qed

theorem header_rows_dropped_witness:
  "\<exists>res. cleanBoardData statusBoard = Inr res \<and> data res = [] \<and>
         removedRows (stats res) = 1 \<and>
         qualityIssues res =
           [js ''Removed embedded header row (item: '' @ [34] @ js ''Header'' @ [34] @ js '')'',
            js ''Removed 1 junk/empty/header rows'']"
proof -
  have c: "bd_columns statusBoard = Some statusColumns" by (simp add: statusBoard_def)
  have i: "bd_items statusBoard = Some statusItems" by (simp add: statusBoard_def)
  define rows where "rows = [[(js ''_id'', JStr (js ''1'')), (js ''_name'', JStr (js ''Header'')),
           (js ''Status'', JStr (js ''Status''))]]"
  have br: "buildRows (buildColMap statusColumns) statusItems = Inr rows"
    unfolding rows_def by (rule statusBoard_rows)
  from cleanBoardData_returns [OF c i br] obtain res where
    r: "cleanBoardData statusBoard = Inr res" ..
  from header_rows_dropped [OF r] c i br have
    d: "data res = filter (\<lambda>r. rowVerdict r = Keep) rows"
    and rm: "removedRows (stats res) =
        length (filter (\<lambda>r. rowVerdict r = DropEmpty) rows) + length (filter isHeader rows)"
    and q: "qualityIssues res =
        map headerNote (filter isHeader rows) @
        (if 0 < removedRows (stats res) then [removedNote (removedRows (stats res))] else []) @
        (if 0 < missingFields (stats res)
         then [missingNote (missingFields (stats res)) (totalFields (stats res))] else [])"
    by auto
  from cleanBoardData_Inr [OF r] have
    ms: "missingFields (stats res) = countMissing (data res)" by auto
  have d1: "data res = []" by (simp only: d rows_def) (simp add: js_eval)
  have rm1: "removedRows (stats res) = 1" by (simp only: rm rows_def) (simp add: js_eval)
  have ms1: "missingFields (stats res) = 0" by (simp add: ms d1 countMissing_def)
  have nt: "removedNote 1 = js ''Removed 1 junk/empty/header rows''"
    using numToString_1 by (simp add: removedNote_def js_def)
  have "qualityIssues res =
           [js ''Removed embedded header row (item: '' @ [34] @ js ''Header'' @ [34] @ js '')'',
            js ''Removed 1 junk/empty/header rows'']"
    by (simp only: q rm1 ms1 nt rows_def) (simp add: js_eval)
  with r d1 rm1 show ?thesis by blast
qed

section \<open>Dates\<close>

lemma isSep_not_digit: "isSep c \<Longrightarrow> \<not> isDigit c"
  by (auto simp: isSep_def isDigit_def)

lemma isDigit_not_space: "isDigit c \<Longrightarrow> \<not> isWhiteSpace c"
  by (auto simp: isDigit_def isWhiteSpace_def)

lemma takeWhile_digits:
  "list_all isDigit d \<Longrightarrow> \<not> isDigit c \<Longrightarrow> takeWhile isDigit (d @ c # r) = d"
  by (simp add: list_all_iff takeWhile_append2)

lemma dropWhile_digits:
  "list_all isDigit d \<Longrightarrow> \<not> isDigit c \<Longrightarrow> dropWhile isDigit (d @ c # r) = c # r"
  by (simp add: list_all_iff dropWhile_append2)

lemma matchDMY_shape:
  assumes "list_all isDigit d" "length d = 1 \<or> length d = 2"
    and "list_all isDigit m" "length m = 1 \<or> length m = 2"
    and "list_all isDigit y" "length y = 4" and "isSep s1" "isSep s2"
  shows "matchDMY (d @ [s1] @ m @ [s2] @ y) = Some (d, m, y)"
proof -
  have 1: "takeWhile isDigit (d @ s1 # m @ s2 # y) = d"
    and 2: "dropWhile isDigit (d @ s1 # m @ s2 # y) = s1 # m @ s2 # y"
    using assms(1,7) by (simp_all add: takeWhile_digits dropWhile_digits isSep_not_digit)
  have 3: "takeWhile isDigit (m @ s2 # y) = m"
    and 4: "dropWhile isDigit (m @ s2 # y) = s2 # y"
    using assms(3,8) by (simp_all add: takeWhile_digits dropWhile_digits isSep_not_digit)
  show ?thesis
    using assms(2,4,5,6,7,8) by (simp add: matchDMY_def Let_def 1 2 3 4)
qed

lemma matchDMY_Some:
  assumes "matchDMY t = Some (d, m, y)"
  shows "\<exists>s1 s2. t = d @ [s1] @ m @ [s2] @ y \<and> isSep s1 \<and> isSep s2 \<and>
           list_all isDigit d \<and> (length d = 1 \<or> length d = 2) \<and>
           list_all isDigit m \<and> (length m = 1 \<or> length m = 2) \<and>
           list_all isDigit y \<and> length y = 4"
proof -
  let ?r1 = "dropWhile isDigit t"
  let ?r2 = "dropWhile isDigit (tl ?r1)"
  from assms have a:
    "d = takeWhile isDigit t" "length d = 1 \<or> length d = 2" "?r1 \<noteq> []" "isSep (hd ?r1)"
    "m = takeWhile isDigit (tl ?r1)" "length m = 1 \<or> length m = 2" "?r2 \<noteq> []"
    "isSep (hd ?r2)" "y = tl ?r2" "length y = 4" "list_all isDigit y"
    by (auto simp: matchDMY_def Let_def split: if_splits)
  have t: "t = d @ ?r1" by (simp add: a(1))
  have r1: "?r1 = hd ?r1 # tl ?r1" using a(3) by simp
  have tl1: "tl ?r1 = m @ ?r2" by (simp add: a(5))
  have r2: "?r2 = hd ?r2 # y" using a(7,9) by simp
  have "t = d @ [hd ?r1] @ m @ [hd ?r2] @ y"
    by (subst t, subst r1, subst tl1, subst r2) simp
  moreover have "list_all isDigit d" by (simp add: a(1) list_all_iff) (meson set_takeWhileD)
  moreover have "list_all isDigit m" by (simp add: a(5) list_all_iff) (meson set_takeWhileD)
  ultimately show ?thesis using a(2,4,6,8,10,11) by blast
qed

lemma isoPrefix_digits:
  "isoPrefix s \<Longrightarrow> isDigit (s ! 0) \<and> isDigit (s ! 1) \<and> isDigit (s ! 2)"
  by (auto simp: isoPrefix_def split: list.splits)

lemma not_isoPrefix_shape:
  assumes "length d = 1 \<or> length d = 2" and "isSep s1"
  shows "\<not> isoPrefix (d @ [s1] @ r)"
proof
  assume "isoPrefix (d @ [s1] @ r)"
  from isoPrefix_digits [OF this] have
    "isDigit ((d @ [s1] @ r) ! 1)" "isDigit ((d @ [s1] @ r) ! 2)" by auto
  with assms(1) have "isDigit s1" by (auto simp: nth_append)
  with assms(2) show False by (simp add: isSep_not_digit)
qed

lemma dropWhile_id: "s \<noteq> [] \<Longrightarrow> \<not> P (hd s) \<Longrightarrow> dropWhile P s = s"
  by (cases s) simp_all

lemma trim_id:
  assumes "s \<noteq> []" "\<not> isWhiteSpace (hd s)" "\<not> isWhiteSpace (last s)"
  shows "trim s = s"
proof -
  have "dropWhile isWhiteSpace s = s" using assms(1,2) by (rule dropWhile_id)
  moreover have "dropWhile isWhiteSpace (rev s) = rev s"
    using assms(1,3) by (intro dropWhile_id) (simp_all add: hd_rev)
  ultimately show ?thesis by (simp add: trim_def)
qed



section \<open>Numbers\<close>

lemma digitsValue_snoc: "digitsValue (ds @ [c]) = 10 * digitsValue ds + (int c - 48)"
  by (simp add: digitsValue_def)

lemma digitsValue_nonneg: "list_all isDigit ds \<Longrightarrow> 0 \<le> digitsValue ds"
proof (induction ds rule: rev_induct)
  case Nil
  show ?case by (simp add: digitsValue_def)
next
  case (snoc c ds)
  then show ?case by (simp add: digitsValue_snoc isDigit_def)
qed

lemma takeWhile_all: "list_all P xs \<Longrightarrow> takeWhile P xs = xs"
  by (simp add: list_all_iff)

lemma dropWhile_all: "list_all P xs \<Longrightarrow> dropWhile P xs = []"
  by (simp add: list_all_iff)

lemma parseFloat_digits:
  assumes ne: "ds \<noteq> []" and dg: "list_all isDigit ds"
    and lt: "digitsValue ds < 9007199254740992"
  shows "parseFloat ds = Fin (of_int (digitsValue ds))"
proof -
  obtain c r where ds: "ds = c # r" using ne by (cases ds) auto
  from dg ds have c: "isDigit c" by simp
  then have c1: "\<not> isWhiteSpace c" "c \<noteq> 45" "c \<noteq> 43" "c \<noteq> 73"
    by (auto simp: isDigit_def isWhiteSpace_def)
  have ts: "trimStart ds = ds" using c1(1) by (simp add: trimStart_def ds)
  have inf: "\<not> startsWith ds (js ''Infinity'')"
    using c1(4) by (auto simp: startsWith_def js_def ds)
  have tw: "takeWhile isDigit ds = ds" "dropWhile isDigit ds = []"
    using dg by (simp_all add: takeWhile_all dropWhile_all)
  have "\<bar>digitsValue ds\<bar> < 9007199254740992"
    using lt digitsValue_nonneg [OF dg] by simp
  then have rd: "roundDouble (of_int (digitsValue ds)) = Fin (of_int (digitsValue ds))"
    by (rule roundDouble_of_int)
  have ng: "(case ds of [] \<Rightarrow> False | c # r \<Rightarrow> c = 45) = False"
    using c1(2) by (simp add: ds)
  have s1: "(case ds of [] \<Rightarrow> [] | c # r \<Rightarrow> if c = 45 \<or> c = 43 then r else ds) = ds"
    using c1(2,3) by (simp add: ds)
  have "parseFloat ds = roundDouble (of_int (digitsValue ds) * pow10 (exponentPart [] - 0))"
    by (simp only: parseFloat_def ts Let_def ng s1 inf tw list.case if_False ne simp_thms
        append_Nil2 list.size of_nat_0)
  also have "\<dots> = roundDouble (of_int (digitsValue ds))"
    by (simp add: exponentPart_def pow10_def)
  finally show ?thesis by (simp only: rd)
qed



section \<open>Grouping\<close>

lemma groupKey_cases:
  "groupKey r key =
     (if truthy (getProp r key) then toStr (getProp r key)
      else if truthy (getProp r (js ''_name'')) then toStr (getProp r (js ''_name''))
      else js ''Unknown'')"
  by (simp add: groupKey_def orElse_def)

lemma mset_concat_setProp:
  "mset (concat (map snd (setProp g k (case map_of g k of None \<Rightarrow> [r] | Some x \<Rightarrow> x @ [r])))) =
   mset (concat (map snd g)) + {#r#}"
  by (induction g) (auto)

lemma groupRows_mset:
  "groupRows g rs key = Inr g' \<Longrightarrow>
   mset (concat (map snd g')) = mset (concat (map snd g)) + mset rs"
proof (induction rs arbitrary: g)
  case Nil
  then show ?case by simp
next
  case (Cons r rs)
  then show ?case
    by (auto simp: Let_def mset_concat_setProp split: if_splits)
qed

lemma groupRows_distinct:
  "groupRows g rs key = Inr g' \<Longrightarrow> distinct (map fst g) \<Longrightarrow> distinct (map fst g')"
proof (induction rs arbitrary: g)
  case Nil
  then show ?case by simp
next
  case (Cons r rs)
  then show ?case
    by (auto simp: Let_def distinct_setProp split: if_splits)
qed


lemma groupRows_keys:
  "groupRows g rs key = Inr g' \<Longrightarrow>
   (\<forall>(k, xs) \<in> set g. \<forall>r \<in> set xs. groupKey r key = k) \<Longrightarrow>
   (\<forall>(k, xs) \<in> set g'. \<forall>r \<in> set xs. groupKey r key = k)"
proof (induction rs arbitrary: g)
  case Nil
  then show ?case by simp
next
  case (Cons r rs)
  let ?val = "groupKey r key"
  let ?new = "case map_of g ?val of None \<Rightarrow> [r] | Some x \<Rightarrow> x @ [r]"
  from Cons.prems(1) have ok: "?val \<notin> set protoNames"
    and rec: "groupRows (setProp g ?val ?new) rs key = Inr g'"
    by (auto simp: Let_def split: if_splits)
  have new: "\<forall>x \<in> set ?new. groupKey x key = ?val"
  proof (cases "map_of g ?val")
    case None
    then show ?thesis by simp
  next
    case (Some xs)
    then have "(?val, xs) \<in> set g" by (rule map_of_SomeD)
    with Cons.prems(2) have "\<forall>x \<in> set xs. groupKey x key = ?val" by auto
    with Some show ?thesis by simp
  qed
  have "\<forall>(k, xs) \<in> set (setProp g ?val ?new). \<forall>x \<in> set xs. groupKey x key = k"
  proof (clarify)
    fix k xs x
    assume a: "(k, xs) \<in> set (setProp g ?val ?new)" and x: "x \<in> set xs"
    from set_setProp [OF a] show "groupKey x key = k"
    proof
      assume "(k, xs) = (?val, ?new)"
      with new x show ?thesis by auto
    next
      assume "(k, xs) \<in> set g"
      with Cons.prems(2) x show ?thesis by auto
    qed
  qed
  from Cons.IH [OF rec this] show ?case .
qed

lemma groupRows_grow:
  "groupRows g rs key = Inr g' \<Longrightarrow> map_of g k = Some xs \<Longrightarrow>
   \<exists>ys. map_of g' k = Some (xs @ ys)"
proof (induction rs arbitrary: g xs)
  case Nil
  then show ?case by simp
next
  case (Cons r rs)
  let ?val = "groupKey r key"
  let ?new = "case map_of g ?val of None \<Rightarrow> [r] | Some x \<Rightarrow> x @ [r]"
  from Cons.prems(1) have rec: "groupRows (setProp g ?val ?new) rs key = Inr g'"
    by (auto simp: Let_def split: if_splits)
  show ?case
  proof (cases "?val = k")
    case True
    with Cons.prems(2) have "map_of (setProp g ?val ?new) k = Some (xs @ [r])"
      by (simp add: map_of_setProp)
    from Cons.IH [OF rec this] show ?thesis by auto
  next
    case False
    with Cons.prems(2) have "map_of (setProp g ?val ?new) k = Some xs"
      by (simp add: map_of_setProp)
    from Cons.IH [OF rec this] show ?thesis .
  qed
qed

lemma groupRows_member:
  "groupRows g rs key = Inr g' \<Longrightarrow> r \<in> set rs \<Longrightarrow>
   \<exists>xs. map_of g' (groupKey r key) = Some xs \<and> r \<in> set xs"
proof (induction rs arbitrary: g)
  case Nil
  then show ?case by simp
next
  case (Cons x rs)
  let ?val = "groupKey x key"
  let ?new = "case map_of g ?val of None \<Rightarrow> [x] | Some y \<Rightarrow> y @ [x]"
  from Cons.prems(1) have rec: "groupRows (setProp g ?val ?new) rs key = Inr g'"
    by (auto simp: Let_def split: if_splits)
  show ?case
  proof (cases "r = x")
    case True
    have "map_of (setProp g ?val ?new) ?val = Some ?new" by (simp add: map_of_setProp)
    from groupRows_grow [OF rec this] obtain ys where "map_of g' ?val = Some (?new @ ys)" ..
    moreover have "x \<in> set ?new" by (cases "map_of g ?val") simp_all
    ultimately show ?thesis using True by auto
  next
    case False
    with Cons.prems(2) have "r \<in> set rs" by simp
    from Cons.IH [OF rec this] show ?thesis .
  qed
qed



text \<open>
  Claim C10, as the code has it. The group of a row is decided by truthiness: a value
  of the grouping column that is truthy, which every string but the empty one is (the
  string \<open>0\<close> too), is the key of the row's group; when the value is the empty string,
  \<^verbatim>\<open>null\<close> or absent, the row is in the group of its name, and in the group \<open>Unknown\<close>
  when the name is falsy as well.
\<close>

theorem groupBy_key_truthiness:
  assumes "groupBy rows key = Inr groups" and "r \<in> set rows"
  shows "\<exists>rs. map_of groups
                (if truthy (getProp r key) then toStr (getProp r key)
                 else if truthy (getProp r (js ''_name'')) then toStr (getProp r (js ''_name''))
                 else js ''Unknown'') = Some rs \<and> r \<in> set rs"
proof -
  from assms(1) have g: "groupRows [] rows key = Inr groups" by (simp add: groupBy_def)
  from groupRows_member [OF g assms(2)] show ?thesis by (simp add: groupKey_cases)
qed

theorem groupBy_key_truthiness_witness:
  "\<exists>rs. map_of [(js ''Won'', [wonRow, wonAgainRow]), (js ''0'', [zeroRow]),
                (js ''Gamma'', [emptyStageRow]), (js ''Unknown'', [namelessRow])]
          (js ''Gamma'') = Some rs \<and> emptyStageRow \<in> set rs"
proof -
  have g: "groupBy stageRows (js ''Stage'') =
     Inr [(js ''Won'', [wonRow, wonAgainRow]), (js ''0'', [zeroRow]),
          (js ''Gamma'', [emptyStageRow]), (js ''Unknown'', [namelessRow])]"
    by (simp add: stageRows_def wonRow_def zeroRow_def emptyStageRow_def namelessRow_def
        wonAgainRow_def js_eval)
  have r: "emptyStageRow \<in> set stageRows" by (simp add: stageRows_def)
  from groupBy_key_truthiness [OF g r] show ?thesis
    by (simp add: emptyStageRow_def js_eval)
qed

text \<open>The row with the stage \<open>0\<close> and the name \<open>Beta\<close> is grouped under \<open>0\<close>.\<close>

theorem groupBy_zero_string_counterexample:
  "groupBy [zeroRow] (js ''Stage'') = Inr [(js ''0'', [zeroRow])] \<and>
   getProp zeroRow (js ''_name'') = JStr (js ''Beta'') \<and>
   map_of [(js ''0'', [zeroRow])] (js ''Beta'') = None"
  by (simp add: zeroRow_def js_eval)

section \<open>The completeness statistic\<close>

text \<open>
  The three operations of \<^verbatim>\<open>(1 - missingFields / totalFields) * 100\<close> each round once.
  For counts with \<open>missingFields \<le> totalFields\<close> the result is within \<open>4 / 10 ^ 14\<close> of
  the exact value.
\<close>

lemma pow2_m1075_small: "pow2 (- 1075) \<le> 1 / 100000000000000000000"
proof -
  have "pow2 (- 1075) \<le> pow2 (- 70)" by (rule pow2_mono) simp
  also have "\<dots> = 1 / 2 ^ 70" by (simp add: pow2_def)
  also have "\<dots> \<le> 1 / 100000000000000000000" by simp
  finally show ?thesis .
qed

lemma pow2_1023_big: "(200::rat) < pow2 1023"
proof -
  have "(200::rat) < pow2 8" by (simp add: pow2_def)
  also have "\<dots> < pow2 1023" by (rule pow2_strict_mono) simp
  finally show ?thesis .
qed

lemma roundDouble_bounded:
  assumes "\<bar>q\<bar> \<le> 200"
  obtains r where "roundDouble q = Fin r"
    and "\<bar>r - q\<bar> \<le> \<bar>q\<bar> / 9007199254740992 + 1 / 100000000000000000000"
proof -
  from assms pow2_1023_big have "\<bar>q\<bar> < pow2 1023" by linarith
  from roundDouble_finite [OF this] obtain r where r: "roundDouble q = Fin r" ..
  from roundDouble_error [OF r] pow2_m1075_small
  have "\<bar>r - q\<bar> \<le> \<bar>q\<bar> / 9007199254740992 + 1 / 100000000000000000000" by linarith
  with r show ?thesis by (rule that)
qed

lemma completeness_error:
  fixes m t :: nat
  assumes t: "0 < t" and mt: "m \<le> t"
  shows "\<exists>z. jsMul (jsSub (Fin 1) (jsDiv (numOfNat m) (numOfNat t))) (Fin 100) = Fin z \<and>
             \<bar>z - (1 - rat_of_nat m / of_nat t) * 100\<bar> \<le> 4 / 100000000000000"
proof -
  define x where "x = rat_of_nat m / of_nat t"
  have x0: "0 \<le> x" by (simp add: x_def)
  have x1: "x \<le> 1" using t mt by (simp add: x_def)
  have d: "jsDiv (numOfNat m) (numOfNat t) = roundDouble x"
    using t by (simp add: numOfNat_def x_def)
  have ax: "\<bar>x\<bar> = x" using x0 by simp
  have "\<bar>x\<bar> \<le> 200" using x0 x1 by simp
  from roundDouble_bounded [OF this] obtain xh where
    xh: "roundDouble x = Fin xh"
    and ex: "\<bar>xh - x\<bar> \<le> x / 9007199254740992 + 1 / 100000000000000000000"
    unfolding ax by blast
  have s: "jsSub (Fin 1) (Fin xh) = roundDouble (1 - xh)" by simp
  define ay where "ay = \<bar>1 - xh\<bar>"
  have y2: "ay \<le> 1 + (1 / 9007199254740992 + 1 / 100000000000000000000)"
    unfolding ay_def using ex x0 x1 by linarith
  then have "\<bar>1 - xh\<bar> \<le> 200" unfolding ay_def by linarith
  from roundDouble_bounded [OF this] obtain yh where
    yh: "roundDouble (1 - xh) = Fin yh"
    and ey: "\<bar>yh - (1 - xh)\<bar> \<le> ay / 9007199254740992 + 1 / 100000000000000000000"
    unfolding ay_def by blast
  have ey': "\<bar>yh - (1 - xh)\<bar> \<le> 2 / 9007199254740992 + 1 / 100000000000000000000"
    using ey y2 by linarith
  have mu: "jsMul (Fin yh) (Fin 100) = roundDouble (yh * 100)" by simp
  define az where "az = \<bar>yh * 100\<bar>"
  have "\<bar>yh\<bar> \<le> ay + (2 / 9007199254740992 + 1 / 100000000000000000000)"
    unfolding ay_def using ey' by linarith
  then have za: "az \<le> 100 + 400 / 9007199254740992"
    unfolding az_def using y2 by linarith
  then have "\<bar>yh * 100\<bar> \<le> 200" unfolding az_def by linarith
  from roundDouble_bounded [OF this] obtain zh where
    zh: "roundDouble (yh * 100) = Fin zh"
    and ez: "\<bar>zh - yh * 100\<bar> \<le> az / 9007199254740992 + 1 / 100000000000000000000"
    unfolding az_def by blast
  have ez': "\<bar>zh - yh * 100\<bar> \<le> 101 / 9007199254740992" using ez za by linarith
  have ex': "\<bar>xh - x\<bar> \<le> 101 / 900719925474099200" using ex x0 x1 by linarith
  have ey'': "\<bar>yh - (1 - xh)\<bar> \<le> 101 / 900719925474099200" using ey y2 by linarith
  have b1: "- (101 / 900719925474099200) \<le> xh - x" "xh - x \<le> 101 / 900719925474099200"
    using ex' by (simp_all only: abs_le_iff) linarith+
  have b2: "- (101 / 900719925474099200) \<le> yh - (1 - xh)"
    "yh - (1 - xh) \<le> 101 / 900719925474099200"
    using ey'' by (simp_all only: abs_le_iff) linarith+
  have b3: "- (101 / 9007199254740992) \<le> zh - yh * 100" "zh - yh * 100 \<le> 101 / 9007199254740992"
    using ez' by (simp_all only: abs_le_iff) linarith+
  have ds: "(1 - x) * 100 = 100 - 100 * x" by (simp add: algebra_simps)
  have "zh - (100 - 100 * x) \<le> 4 / 100000000000000"
    and "- (zh - (100 - 100 * x)) \<le> 4 / 100000000000000"
    using b1 b2 b3 by linarith+
  then have "\<bar>zh - (1 - x) * 100\<bar> \<le> 4 / 100000000000000"
    unfolding ds by (simp only: abs_le_iff)
  moreover have "jsMul (jsSub (Fin 1) (jsDiv (numOfNat m) (numOfNat t))) (Fin 100) = Fin zh"
    by (simp only: d xh s yh mu zh)
  ultimately show ?thesis unfolding x_def by blast
qed

text \<open>
  \<^verbatim>\<open>toFixed(1)\<close> of a value that is not negative: the digits of the nearest number of
  tenths, a point before the last one.
\<close>

lemma toFixed_one_digit:
  assumes z0: "0 \<le> z" and z1: "z < 1000"
  shows "toFixed 1 (Fin z) =
           decimalOf (nat \<lfloor>z * 10 + 1 / 2\<rfloor> div 10) @ [46] @
           decimalOf (nat \<lfloor>z * 10 + 1 / 2\<rfloor> mod 10)"
proof -
  define n where "n = nat \<lfloor>z * 10 + 1 / 2\<rfloor>"
  have az: "\<bar>z\<bar> = z" using z0 by simp
  have big: "\<not> 10 ^ 21 \<le> \<bar>z\<bar>" using z1 unfolding az by simp
  have neg: "\<not> z < 0" using z0 by simp
  have dm: "decimalOf (n mod 10) = [48 + n mod 10]" by (subst decimalOf.simps) simp
  have sh: "(let m = decimalOf n; m' = replicate (1 + 1 - length m) 48 @ m; k = length m'
             in take (k - 1) m' @ [46] @ drop (k - 1) m') =
            decimalOf (n div 10) @ [46] @ decimalOf (n mod 10)"
  proof (cases "n < 10")
    case True
    then have "decimalOf n = [48 + n]" by (subst decimalOf.simps) simp
    moreover have "n div 10 = 0" "n mod 10 = n" using True by simp_all
    ultimately show ?thesis by (simp add: Let_def decimalOf_0 dm)
  next
    case False
    then have dn: "decimalOf n = decimalOf (n div 10) @ [48 + n mod 10]"
      by (subst decimalOf.simps) simp
    have "decimalOf (n div 10) \<noteq> []" by (rule decimalOf_nonempty)
    then have "Suc 0 \<le> length (decimalOf (n div 10))" by (cases "decimalOf (n div 10)") simp_all
    then show ?thesis by (simp add: Let_def dn dm)
  qed
  have "toFixed 1 (Fin z) =
          (let m = decimalOf n; m' = replicate (1 + 1 - length m) 48 @ m; k = length m'
           in take (k - 1) m' @ [46] @ drop (k - 1) m')"
    using big neg by (simp add: toFixed_def az n_def Let_def)
  also note sh
  finally show ?thesis unfolding n_def .
qed

lemma completeness_tenth:
  fixes m t :: nat
  assumes t: "0 < t" and mt: "m \<le> t" and tb: "t \<le> 1000000000000"
  shows "\<exists>n. completenessOf m t = decimalOf (n div 10) @ [46] @ decimalOf (n mod 10) \<and>
             \<bar>rat_of_nat n / 10 - (1 - rat_of_nat m / of_nat t) * 100\<bar> \<le> 1 / 20"
proof -
  define T where "T = rat_of_nat t"
  define M where "M = rat_of_nat m"
  define v where "v = (1 - M / T) * 100"
  have T0: "0 < T" using t by (simp add: T_def)
  have MT: "M \<le> T" using mt by (simp add: T_def M_def)
  have M0: "0 \<le> M" by (simp add: M_def)
  have Tb: "T \<le> 1000000000000" using tb unfolding T_def
    by (metis of_nat_le_iff of_nat_numeral)
  have vT: "v * T = 100 * (T - M)" using T0 by (simp add: v_def field_simps)
  have q0: "0 \<le> M / T" using T0 M0 by simp
  have q1: "M / T \<le> 1" using T0 MT by simp
  have vq: "v = 100 - 100 * (M / T)" by (simp add: v_def algebra_simps)
  have v0: "0 \<le> v" using q1 unfolding vq by linarith
  have v100: "v \<le> 100" using q0 unfolding vq by linarith
  from completeness_error [OF t mt] obtain z where
    zv: "jsMul (jsSub (Fin 1) (jsDiv (numOfNat m) (numOfNat t))) (Fin 100) = Fin z"
    and ze: "\<bar>z - v\<bar> \<le> 4 / 100000000000000"
    unfolding v_def T_def M_def by blast
  have z0: "0 \<le> z"
  proof (cases "m = t")
    case True
    have "jsDiv (numOfNat m) (numOfNat t) = Fin 1"
      using t True by (simp add: numOfNat_def roundDouble_one)
    then have "jsMul (jsSub (Fin 1) (jsDiv (numOfNat m) (numOfNat t))) (Fin 100) = Fin 0"
      by (simp add: roundDouble_def)
    with zv show ?thesis by simp
  next
    case False
    then have "m < t" using mt by simp
    then have "rat_of_nat m + 1 \<le> rat_of_nat t"
      by (metis Suc_leI of_nat_Suc of_nat_le_iff add.commute)
    then have "1 \<le> T - M" unfolding T_def M_def by linarith
    then have "100 \<le> v * T" unfolding vT by simp
    moreover have "v * T \<le> v * 1000000000000" using Tb v0 by (rule mult_left_mono)
    ultimately have "1 / 10000000000 \<le> v" by linarith
    with ze show ?thesis by linarith
  qed
  have z1: "z < 1000" using ze v100 by linarith
  define n where "n = nat \<lfloor>z * 10 + 1 / 2\<rfloor>"
  define Nr where "Nr = rat_of_nat n"
  have fl0: "0 \<le> \<lfloor>z * 10 + 1 / 2\<rfloor>" using z0 by simp
  then have Nr: "Nr = of_int \<lfloor>z * 10 + 1 / 2\<rfloor>" unfolding Nr_def n_def by simp
  have lo: "Nr \<le> z * 10 + 1 / 2" unfolding Nr by (rule of_int_floor_le)
  have hi: "z * 10 + 1 / 2 < Nr + 1" unfolding Nr by linarith
  define NT where "NT = Nr * T"
  define ET where "ET = (4 / 100000000000000) * T"
  have ETb: "ET \<le> 4 / 100" unfolding ET_def using Tb by linarith
  have zlo: "z \<le> v + 4 / 100000000000000" and zhi: "v - 4 / 100000000000000 \<le> z"
    using ze by linarith+
  have up: "Nr - 10 * v - 1 / 2 \<le> 0"
  proof -
    have "Nr - 10 * v - 1 / 2 - 10 * (4 / 100000000000000) \<le> 0" using lo zlo by linarith
    then have "(Nr - 10 * v - 1 / 2 - 10 * (4 / 100000000000000)) * T \<le> 0"
      using T0 by (simp add: mult_le_0_iff)
    moreover have "(Nr - 10 * v - 1 / 2 - 10 * (4 / 100000000000000)) * T =
        NT - 1000 * (T - M) - T / 2 - 10 * ET"
      using vT by (simp add: algebra_simps NT_def ET_def)
    ultimately have a: "2 * NT - 2000 * (T - M) - T < 1" using ETb by linarith
    define A where "A = 2 * int n * int t - 2000 * (int t - int m) - int t"
    have A: "rat_of_int A = 2 * NT - 2000 * (T - M) - T"
      by (simp add: A_def NT_def Nr_def T_def M_def)
    from a have "rat_of_int A < 1" unfolding A .
    then have "A < 1" by (metis of_int_less_iff of_int_1)
    then have "A \<le> 0" by simp
    then have "rat_of_int A \<le> 0" by simp
    then have "2 * NT - 2000 * (T - M) - T \<le> 0" unfolding A .
    moreover have "(Nr - 10 * v - 1 / 2) * T = NT - 1000 * (T - M) - T / 2"
      using vT by (simp add: algebra_simps NT_def)
    ultimately have "(Nr - 10 * v - 1 / 2) * T \<le> 0" by linarith
    then show ?thesis using T0 by (simp add: mult_le_0_iff)
  qed
  have dn: "10 * v - Nr - 1 / 2 \<le> 0"
  proof -
    have "10 * v - Nr - 1 / 2 - 10 * (4 / 100000000000000) \<le> 0" using hi zhi by linarith
    then have "(10 * v - Nr - 1 / 2 - 10 * (4 / 100000000000000)) * T \<le> 0"
      using T0 by (simp add: mult_le_0_iff)
    moreover have "(10 * v - Nr - 1 / 2 - 10 * (4 / 100000000000000)) * T =
        1000 * (T - M) - NT - T / 2 - 10 * ET"
      using vT by (simp add: algebra_simps NT_def ET_def)
    ultimately have a: "2000 * (T - M) - 2 * NT - T < 1" using ETb by linarith
    define B where "B = 2000 * (int t - int m) - 2 * int n * int t - int t"
    have B: "rat_of_int B = 2000 * (T - M) - 2 * NT - T"
      by (simp add: B_def NT_def Nr_def T_def M_def)
    from a have "rat_of_int B < 1" unfolding B .
    then have "B < 1" by (metis of_int_less_iff of_int_1)
    then have "B \<le> 0" by simp
    then have "rat_of_int B \<le> 0" by simp
    then have "2000 * (T - M) - 2 * NT - T \<le> 0" unfolding B .
    moreover have "(10 * v - Nr - 1 / 2) * T = 1000 * (T - M) - NT - T / 2"
      using vT by (simp add: algebra_simps NT_def)
    ultimately have "(10 * v - Nr - 1 / 2) * T \<le> 0" by linarith
    then show ?thesis using T0 by (simp add: mult_le_0_iff)
  qed
  have "\<bar>Nr / 10 - v\<bar> \<le> 1 / 20" using up dn by linarith
  moreover have "completenessOf m t = decimalOf (n div 10) @ [46] @ decimalOf (n mod 10)"
  proof -
    have "completenessOf m t = toFixed 1 (Fin z)"
      using t by (simp only: completenessOf_def zv) simp
    then show ?thesis by (simp only: toFixed_one_digit [OF z0 z1] n_def)
  qed
  ultimately show ?thesis unfolding Nr_def v_def T_def M_def by blast
qed

lemma completenessOf_zero: "completenessOf m 0 = js ''100''"
  by (simp add: completenessOf_def)

lemma completenessOf_40_6: "completenessOf 6 40 = js ''85.0''"
proof -
  from completeness_tenth [of 40 6] obtain n where
    c: "completenessOf 6 40 = decimalOf (n div 10) @ [46] @ decimalOf (n mod 10)"
    and e: "\<bar>rat_of_nat n / 10 - (1 - rat_of_nat 6 / of_nat 40) * 100\<bar> \<le> 1 / 20"
    by auto
  from e have "\<bar>rat_of_nat n / 10 - 85\<bar> \<le> 1 / 20" by simp
  then have "rat_of_nat n < 851" "849 < rat_of_nat n" by linarith+
  then have "n < 851" "849 < n"
    by (metis of_nat_less_iff of_nat_numeral)+
  then have "n = 850" by simp
  with c show ?thesis by (simp add: decimalOf_numeral decimalOf_0 js_def)
qed

lemma surveyBoard_rows:
  "buildRows (buildColMap surveyColumns) surveyItems =
     Inr [[(js ''_id'', JStr (js ''1'')), (js ''_name'', JStr (js ''Acme'')),
           (js ''Status'', JStr (js ''Open'')), (js ''Sector'', JNull)],
          [(js ''_id'', JStr (js ''1'')), (js ''_name'', JStr (js ''Acme'')),
           (js ''Status'', JStr (js ''Open'')), (js ''Sector'', JNull)],
          [(js ''_id'', JStr (js ''1'')), (js ''_name'', JStr (js ''Acme'')),
           (js ''Status'', JStr (js ''Open'')), (js ''Sector'', JNull)],
          [(js ''_id'', JStr (js ''1'')), (js ''_name'', JStr (js ''Acme'')),
           (js ''Status'', JStr (js ''Open'')), (js ''Sector'', JNull)],
          [(js ''_id'', JStr (js ''1'')), (js ''_name'', JStr (js ''Acme'')),
           (js ''Status'', JStr (js ''Open'')), (js ''Sector'', JNull)],
          [(js ''_id'', JStr (js ''1'')), (js ''_name'', JStr (js ''Acme'')),
           (js ''Status'', JStr (js ''Open'')), (js ''Sector'', JNull)],
          [(js ''_id'', JStr (js ''2'')), (js ''_name'', JStr (js ''Beta'')),
           (js ''Status'', JStr (js ''Open''))],
          [(js ''_id'', JStr (js ''2'')), (js ''_name'', JStr (js ''Beta'')),
           (js ''Status'', JStr (js ''Open''))]]"
proof -
  have cm: "buildColMap surveyColumns =
      [(js ''status'', js ''Status''), (js ''sector'', js ''Sector''), (js ''owner'', js ''Owner''),
       (js ''stage'', js ''Stage''), (js ''region'', js ''Region'')]"
    by (simp add: surveyColumns_def js_eval)
  have g: "buildRow (buildColMap surveyColumns) gapItem =
      Inr [(js ''_id'', JStr (js ''1'')), (js ''_name'', JStr (js ''Acme'')),
           (js ''Status'', JStr (js ''Open'')), (js ''Sector'', JNull)]"
    unfolding cm by (simp add: gapItem_def js_eval row_eval)
  have op: "buildRow (buildColMap surveyColumns) openItem =
      Inr [(js ''_id'', JStr (js ''2'')), (js ''_name'', JStr (js ''Beta'')),
           (js ''Status'', JStr (js ''Open''))]"
    unfolding cm by (simp add: openItem_def js_eval row_eval)
  show ?thesis by (simp add: surveyItems_def g op)
qed



section \<open>The detail tables\<close>

lemma binary64_iff: "binary64 r \<longleftrightarrow> (\<exists>n. r = of_int n * pow2 (- 1074))"
proof
  assume "binary64 r"
  then have "rat_of_int \<lfloor>r / pow2 (- 1074)\<rfloor> = r / pow2 (- 1074)"
    unfolding binary64_def .
  then have "r = of_int \<lfloor>r / pow2 (- 1074)\<rfloor> * pow2 (- 1074)"
    by (metis nonzero_divide_eq_eq pow2_nonzero)
  then show "\<exists>n. r = of_int n * pow2 (- 1074)" ..
next
  assume "\<exists>n. r = of_int n * pow2 (- 1074)"
  then obtain n where "r = of_int n * pow2 (- 1074)" ..
  then have "r / pow2 (- 1074) = of_int n" by simp
  then show "binary64 r" unfolding binary64_def by (simp only: floor_of_int)
qed

lemma binary64_0 [simp]: "binary64 0"
  by (simp add: binary64_def)

lemma roundDouble_binary64:
  assumes "roundDouble q = Fin r"
  shows "binary64 r"
proof (cases "q = 0")
  case True
  with assms show ?thesis by (simp add: roundDouble_def)
next
  case False
  define e where "e = max (ilog2 \<bar>q\<bar> - 52) (- 1074)"
  define n where "n = roundHalfEven (q / pow2 e)"
  from assms have r: "r = of_int n * pow2 e"
    by (simp only: roundDouble_nonzero [OF False] Let_def e_def [symmetric]
        n_def [symmetric] split: if_splits) simp_all
  have e: "- 1074 \<le> e" by (simp add: e_def)
  define j where "j = nat (e + 1074)"
  have "e = int j + (- 1074)" using e by (simp add: j_def)
  then have "pow2 e = 2 ^ j * pow2 (- 1074)" by (simp only: pow2_add pow2_nat)
  then have "r = of_int (n * 2 ^ j) * pow2 (- 1074)" by (simp add: r)
  then show ?thesis unfolding binary64_iff ..
qed

lemma roundDouble_pos:
  assumes "pow2 (- 1074) \<le> q"
  shows "roundDouble q = PosInf \<or> (\<exists>r. roundDouble q = Fin r \<and> 0 < r)"
proof -
  have q: "0 < q" using assms pow2_pos [of "- 1074"] by linarith
  then have q0: "q \<noteq> 0" and aq: "\<bar>q\<bar> = q" by simp_all
  define k where "k = ilog2 q"
  define e where "e = max (k - 52) (- 1074)"
  define n where "n = roundHalfEven (q / pow2 e)"
  have one: "1 \<le> q / pow2 e"
  proof (cases "- 1074 \<le> k - 52")
    case True
    then have e: "e = k - 52" by (simp add: e_def)
    from ilog2_bounds [OF q] have "pow2 k \<le> q" by (simp add: k_def)
    moreover have "pow2 k = pow2 (k - 52) * pow2 52" by (simp flip: pow2_add)
    moreover have "(1::rat) \<le> pow2 52" using pow2_mono [of 0 52] by simp
    ultimately have "pow2 (k - 52) * 1 \<le> q"
      by (metis mult_left_mono order_trans pow2_nonneg)
    then show ?thesis by (simp add: e pos_le_divide_eq)
  next
    case False
    then have e: "e = - 1074" by (simp add: e_def)
    with assms show ?thesis by (simp add: pos_le_divide_eq)
  qed
  have "\<bar>of_int n - q / pow2 e\<bar> \<le> 1 / 2" unfolding n_def by (rule roundHalfEven_error)
  with one have "(1::rat) / 2 \<le> of_int n" by linarith
  then have "0 < n" by linarith
  then have pos: "0 < rat_of_int n * pow2 e" by simp
  have "roundDouble q =
      (if 971 < e \<or> (e = 971 \<and> 9007199254740992 \<le> \<bar>n\<bar>) then PosInf
       else Fin (of_int n * pow2 e))"
    using q by (simp only: roundDouble_nonzero [OF q0] aq Let_def k_def [symmetric]
        e_def [symmetric] n_def [symmetric] if_True)
  with pos show ?thesis by auto
qed

lemma roundDouble_neg:
  assumes "q \<le> - pow2 (- 1074)"
  shows "roundDouble q = NegInf \<or> (\<exists>r. roundDouble q = Fin r \<and> r < 0)"
proof -
  have q: "q < 0" using assms pow2_pos [of "- 1074"] by linarith
  then have q0: "q \<noteq> 0" and aq: "\<bar>q\<bar> = - q" and nq: "\<not> 0 < q" by simp_all
  define k where "k = ilog2 (- q)"
  define e where "e = max (k - 52) (- 1074)"
  define n where "n = roundHalfEven (q / pow2 e)"
  have one: "q / pow2 e \<le> - 1"
  proof (cases "- 1074 \<le> k - 52")
    case True
    then have e: "e = k - 52" by (simp add: e_def)
    from q have "0 < - q" by simp
    from ilog2_bounds [OF this] have "pow2 k \<le> - q" by (simp add: k_def)
    moreover have "pow2 k = pow2 (k - 52) * pow2 52" by (simp flip: pow2_add)
    moreover have "(1::rat) \<le> pow2 52" using pow2_mono [of 0 52] by simp
    ultimately have "pow2 (k - 52) * 1 \<le> - q"
      by (metis mult_left_mono order_trans pow2_nonneg)
    then have "q \<le> - 1 * pow2 (k - 52)" by simp
    then show ?thesis by (simp only: e pos_divide_le_eq [OF pow2_pos])
  next
    case False
    then have e: "e = - 1074" by (simp add: e_def)
    from assms have "q \<le> - 1 * pow2 (- 1074)" by simp
    then show ?thesis by (simp only: e pos_divide_le_eq [OF pow2_pos])
  qed
  have "\<bar>of_int n - q / pow2 e\<bar> \<le> 1 / 2" unfolding n_def by (rule roundHalfEven_error)
  with one have "of_int n \<le> - (1::rat) / 2" by linarith
  then have "n < 0" by linarith
  then have neg: "rat_of_int n * pow2 e < 0" by (simp add: mult_less_0_iff)
  have "roundDouble q =
      (if 971 < e \<or> (e = 971 \<and> 9007199254740992 \<le> \<bar>n\<bar>) then NegInf
       else Fin (of_int n * pow2 e))"
    using nq by (simp only: roundDouble_nonzero [OF q0] aq Let_def k_def [symmetric]
        e_def [symmetric] n_def [symmetric] if_False)
  with neg show ?thesis by auto
qed

lemma binary64_gap:
  assumes "binary64 a" "binary64 b" "a < b"
  shows "a - b \<le> - pow2 (- 1074)"
proof -
  from assms(1,2) obtain m n where a: "a = of_int m * pow2 (- 1074)"
    and b: "b = of_int n * pow2 (- 1074)" unfolding binary64_iff by blast
  from assms(3) have "rat_of_int m * pow2 (- 1074) < of_int n * pow2 (- 1074)" by (simp only: a b)
  then have "rat_of_int m < of_int n" by (simp only: mult_less_cancel_right_pos [OF pow2_pos])
  then have "m + 1 \<le> n" by simp
  then have "rat_of_int (m + 1) \<le> of_int n" by (simp only: of_int_le_iff)
  then have "rat_of_int (m + 1) * pow2 (- 1074) \<le> of_int n * pow2 (- 1074)"
    by (rule mult_right_mono) simp
  then show ?thesis by (simp add: a b algebra_simps)
qed

lemma jsSub_less_zero:
  assumes "isNumber x" "isNumber y"
  shows "jsLess (jsSub x y) (Fin 0) = jsLess x y"
proof (cases x)
  case NaN
  with assms show ?thesis by simp
next
  case PosInf
  then show ?thesis using assms(2) by (cases y) simp_all
next
  case NegInf
  then show ?thesis using assms(2) by (cases y) simp_all
next
  case (Fin a)
  show ?thesis
  proof (cases y)
    case NaN
    with assms show ?thesis by simp
  next
    case PosInf
    with Fin show ?thesis by simp
  next
    case NegInf
    with Fin show ?thesis by simp
  next
    case (Fin b)
    from assms \<open>x = Fin a\<close> Fin have g: "binary64 a" "binary64 b" by simp_all
    consider "a < b" | "a = b" | "b < a" by linarith
    then have "jsLess (roundDouble (a - b)) (Fin 0) = (a < b)"
    proof cases
      case 1
      from roundDouble_neg [OF binary64_gap [OF g 1]] 1 show ?thesis by auto
    next
      case 2
      then show ?thesis by (simp add: roundDouble_def)
    next
      case 3
      from binary64_gap [OF g(2,1) 3] have "pow2 (- 1074) \<le> a - b" by linarith
      from roundDouble_pos [OF this] 3 show ?thesis by auto
    qed
    with \<open>x = Fin a\<close> Fin show ?thesis by simp
  qed
qed


lemma roundDouble_isNumber: "isNumber (roundDouble q)"
  by (cases "roundDouble q") (auto simp: roundDouble_binary64 roundDouble_def Let_def split: if_splits)

lemma parseFloat_isNumber: "parseFloat s = NaN \<or> isNumber (parseFloat s)"
  by (simp add: parseFloat_def Let_def roundDouble_isNumber)

lemma sortValue_isNumber: "isNumber (sortValue col r)"
  using parseFloat_isNumber [of "toStr (getProp r (colKey col))"]
  by (auto simp: sortValue_def Let_def)

lemma jsLess_rank:
  "isNumber x \<Longrightarrow> isNumber y \<Longrightarrow> jsLess x y = (numRank x < numRank y)"
  by (cases x; cases y) (simp_all add: less_prod_def)

lemma numRank_inject:
  "isNumber x \<Longrightarrow> isNumber y \<Longrightarrow> numRank x = numRank y \<Longrightarrow> x = y"
  by (cases x; cases y) simp_all

lemma descKey_less:
  "(descKey col a < descKey col b) = jsLess (sortValue col b) (sortValue col a)"
proof -
  obtain p q where a: "numRank (sortValue col a) = (p, q)" by (cases "numRank (sortValue col a)")
  obtain u v where b: "numRank (sortValue col b) = (u, v)" by (cases "numRank (sortValue col b)")
  show ?thesis
    by (simp add: descKey_def jsLess_rank sortValue_isNumber a b less_prod_def)
qed

lemma descKey_eq:
  "(descKey col a = descKey col b) = (sortValue col a = sortValue col b)"
proof
  assume "descKey col a = descKey col b"
  then have "numRank (sortValue col a) = numRank (sortValue col b)"
    by (simp add: descKey_def prod_eq_iff)
  then show "sortValue col a = sortValue col b"
    by (rule numRank_inject [OF sortValue_isNumber sortValue_isNumber])
next
  assume "sortValue col a = sortValue col b"
  then show "descKey col a = descKey col b" by (simp add: descKey_def)
qed

lemma insertBy_insort:
  "insertBy (compareRows col) x ys = insort_key (descKey col) x ys"
proof (induction ys)
  case Nil
  show ?case by simp
next
  case (Cons y ys)
  have "jsLess (compareRows col y x) (Fin 0) = jsLess (sortValue col x) (sortValue col y)"
    by (simp add: compareRows_def jsSub_less_zero sortValue_isNumber)
  also have "\<dots> = (descKey col y < descKey col x)" by (simp add: descKey_less)
  finally have "jsLess (compareRows col y x) (Fin 0) = (\<not> descKey col x \<le> descKey col y)"
    by (simp add: not_le)
  with Cons show ?case by simp
qed

lemma jsSort_sort_key: "jsSort (compareRows col) xs = sort_key (descKey col) xs"
  by (induction xs) (simp_all add: insertBy_insort)

lemma jsSort_mset: "mset (jsSort (compareRows col) xs) = mset xs"
  by (simp add: jsSort_sort_key)

lemma jsSort_sorted:
  "sorted_wrt (\<lambda>a b. \<not> jsLess (sortValue col a) (sortValue col b)) (jsSort (compareRows col) xs)"
proof -
  have "sorted (map (descKey col) (sort_key (descKey col) xs))" by (rule sorted_sort_key)
  then have "sorted_wrt (\<lambda>a b. descKey col a \<le> descKey col b) (sort_key (descKey col) xs)"
    by (simp add: sorted_map)
  then have "sorted_wrt (\<lambda>a b. \<not> jsLess (sortValue col a) (sortValue col b))
      (sort_key (descKey col) xs)"
    by (rule sorted_wrt_mono_rel [rotated]) (simp add: descKey_less [symmetric] not_less)
  then show ?thesis by (simp only: jsSort_sort_key)
qed

lemma jsSort_stable:
  "filter (\<lambda>r. sortValue col r = v) (jsSort (compareRows col) xs) =
   filter (\<lambda>r. sortValue col r = v) xs"
proof (cases "\<exists>r. sortValue col r = v")
  case True
  then obtain r0 where r0: "sortValue col r0 = v" ..
  have "(\<lambda>r. sortValue col r = v) = (\<lambda>r. descKey col r = descKey col r0)"
    by (rule ext) (simp add: descKey_eq r0)
  then show ?thesis by (simp only: jsSort_sort_key sort_key_stable)
next
  case False
  then show ?thesis by simp
qed

lemma findCol_in_keys: "findCol keys ps = Some k \<Longrightarrow> k \<in> set keys"
  by (auto simp: findCol_def find_Some_iff split: option.splits if_splits)

lemma findCol_in_keys': "Some k = findCol keys ps \<Longrightarrow> k \<in> set keys"
  by (rule findCol_in_keys) simp

lemma present_subset:
  "(\<And>k. Some k \<in> set cs \<Longrightarrow> k \<in> A) \<Longrightarrow> set (present cs) \<subseteq> A"
  by (auto simp: present_def split: option.splits)

lemma dealsCols_subset: "set (dealsCols keys) \<subseteq> set keys"
  unfolding dealsCols_def dealsValueCol_def
  by (rule present_subset) (auto dest: findCol_in_keys')

lemma woCols_subset: "set (woCols keys) \<subseteq> set keys"
  unfolding woCols_def woValueCol_def
  by (rule present_subset) (auto dest: findCol_in_keys')


lemma dealRows_values:
  "sortValue (Some (js ''Deal Value'')) alphaDeal = Fin 300"
  "sortValue (Some (js ''Deal Value'')) betaDeal = Fin 500"
  "sortValue (Some (js ''Deal Value'')) gammaDeal = Fin 300"
proof -
  have d: "digitsValue (js ''300'') = 300" "digitsValue (js ''500'') = 500"
    by (simp_all add: digitsValue_def js_def)
  have "parseFloat (js ''300'') = Fin (of_int (digitsValue (js ''300'')))"
    by (rule parseFloat_digits) (simp_all add: d, simp_all add: js_def isDigit_def)
  then have p3: "parseFloat (js ''300'') = Fin 300" by (simp only: d) simp
  have "parseFloat (js ''500'') = Fin (of_int (digitsValue (js ''500'')))"
    by (rule parseFloat_digits) (simp_all add: d, simp_all add: js_def isDigit_def)
  then have p5: "parseFloat (js ''500'') = Fin 500" by (simp only: d) simp
  have g: "toStr (getProp alphaDeal (colKey (Some (js ''Deal Value'')))) = js ''300''"
    "toStr (getProp betaDeal (colKey (Some (js ''Deal Value'')))) = js ''500''"
    "toStr (getProp gammaDeal (colKey (Some (js ''Deal Value'')))) = js ''300''"
    by (simp_all add: alphaDeal_def betaDeal_def gammaDeal_def colKey_def getProp_def js_def)
  show "sortValue (Some (js ''Deal Value'')) alphaDeal = Fin 300"
    "sortValue (Some (js ''Deal Value'')) betaDeal = Fin 500"
    "sortValue (Some (js ''Deal Value'')) gammaDeal = Fin 300"
    by (simp_all only: sortValue_def g p3 p5 Let_def) simp_all
qed

lemma dealRows_keys:
  "allKeysOf alphaDeal = [js ''Deal Value'', js ''Deal Stage'']"
  by (simp add: alphaDeal_def js_eval)

lemma dealRows_columns:
  "boardKindOf [js ''Deal Value'', js ''Deal Stage''] = Deals"
  "dealsValueCol [js ''Deal Value'', js ''Deal Stage''] = Some (js ''Deal Value'')"
  "dealsCols [js ''Deal Value'', js ''Deal Stage''] = [js ''Deal Value'', js ''Deal Stage'']"
  "dealsGroupCols [js ''Deal Value'', js ''Deal Stage''] = [js ''Deal Stage'']"
  by (simp_all add: boardKindOf_def dealsValueCol_def dealsCols_def dealsGroupCols_def
      findCol_def present_def js_eval)

lemma dealRows_groupings: "groupings dealRows [js ''Deal Stage''] = None"
proof -
  have "groupBy dealRows (js ''Deal Stage'') =
      Inr [(js ''Won'', [alphaDeal]), (js ''Open'', [betaDeal]), (js ''Lost'', [gammaDeal])]"
    by (simp add: dealRows_def alphaDeal_def betaDeal_def gammaDeal_def js_eval)
  then show ?thesis by simp
qed

lemma detailTable_deals:
  assumes "boardKindOf (allKeysOf r) = Deals"
    and "groupings (r # rs) (dealsGroupCols (allKeysOf r)) = None"
  shows "detailTable (r # rs) =
     Inr (Some (dealsCols (allKeysOf r),
       take 20 (jsSort (compareRows (dealsValueCol (allKeysOf r))) (r # rs))))"
  using assms by (simp add: detailTable_def dealsTop_def)



end
